theory Spec2Isabelle
  imports Complex_Main
begin

section \<open>Overview\<close>

text \<open>
  A model of the bulk-operation pipeline of the vendor service: the fixed-window request
  throttle, the Shopify client with its retry wrapper, and the bulk job processor with its
  job store.  The conventions of the model:
  \<^item> An \<^verbatim>\<open>async\<close> function is a function that runs from its call to its return; what it
    awaits from outside (the remote service, random numbers, the clock) comes from an
    environment that is passed along.  Steps of different calls are interleaved only where
    a schedule is written out step by step.
  \<^item> A thrown error is a value: \<open>Inl\<close> of a sum, or a branch that ends the function.
  \<^item> The job store is a map.  Of its calls, the write of the progress inside the loop of the
    processor may throw, as the environment says; the others are taken to succeed.
    \<^verbatim>\<open>Math.random()\<close> yields a real number.
  \<^item> Calls of the logger are left out; what the completion log entry reports is the
    \<open>Totals\<close> record that a completed run returns.
  \<^item> Strings are byte strings; the texts that the code tests for are ASCII.
\<close>

section \<open>Request throttle (server/middleware/rate-limit.ts)\<close>

text \<open>
  \<^verbatim>\<open>RateLimiter\<close> keeps one \<^verbatim>\<open>RequestLog\<close> per key in a \<^verbatim>\<open>Map\<close>.  Times are the
  integer milliseconds of \<^verbatim>\<open>Date.now()\<close>; the configuration numbers are integers in
  all four instances the file creates.
\<close>

record RateLimitConfig =
  windowMs :: int
  maxRequests :: int
  message :: "string option"

record RequestLog =
  count :: int
  resetTime :: int

text \<open>The parts of an Express request that \<^verbatim>\<open>generateKey\<close> reads.\<close>

record Request =
  headerShopDomain :: "string option"
  bodyShopDomain :: "string option"
  ip :: "string option"
  remoteAddress :: "string option"

text \<open>JavaScript's \<^verbatim>\<open>a || b\<close> on possibly missing strings: the empty string is falsy.\<close>

fun orElse :: "string option \<Rightarrow> string option \<Rightarrow> string option" where
  "orElse None b = b"
| "orElse (Some s) b = (if s = [] then b else Some s)"

definition generateKey :: "Request \<Rightarrow> string" where
  "generateKey req =
     (let shopDomain = orElse (headerShopDomain req) (bodyShopDomain req)
      in case orElse (orElse (orElse shopDomain (ip req)) (remoteAddress req)) (Some ''unknown'') of
           Some k \<Rightarrow> k
         | None \<Rightarrow> [])"

text \<open>\<^verbatim>\<open>Math.ceil(x / 1000)\<close> on an integer \<open>x\<close>.\<close>

definition ceilDiv1000 :: "int \<Rightarrow> int" where
  "ceilDiv1000 x = - ((- x) div 1000)"

text \<open>
  What the middleware does to the response: either it answers 429 with an error text and
  \<^verbatim>\<open>retryAfter\<close>, or it sets the three \<^verbatim>\<open>X-RateLimit-*\<close> headers and calls \<^verbatim>\<open>next()\<close>.
\<close>

datatype decision =
    Rejected string int
  | Admitted int int int

text \<open>\<^verbatim>\<open>this.config.message || 'Too many requests'\<close>\<close>

definition rejectText :: "RateLimitConfig \<Rightarrow> string" where
  "rejectText cfg =
     (case message cfg of
        None \<Rightarrow> ''Too many requests''
      | Some m \<Rightarrow> if m = [] then ''Too many requests'' else m)"

definition freshLog :: "RateLimitConfig \<Rightarrow> int \<Rightarrow> RequestLog" where
  "freshLog cfg now = \<lparr>count = 0, resetTime = now + windowMs cfg\<rparr>"

definition middleware ::
  "RateLimitConfig \<Rightarrow> (string \<rightharpoonup> RequestLog) \<Rightarrow> string \<Rightarrow> int
     \<Rightarrow> decision \<times> (string \<rightharpoonup> RequestLog)" where
  "middleware cfg requests key now =
     (let requestLog =
            (case requests key of
               None \<Rightarrow> freshLog cfg now
             | Some rl \<Rightarrow> if resetTime rl \<le> now then freshLog cfg now else rl);
          requestLog = requestLog\<lparr>count := count requestLog + 1\<rparr>;
          requests = requests(key \<mapsto> requestLog)
      in if count requestLog > maxRequests cfg
         then (Rejected (rejectText cfg) (ceilDiv1000 (resetTime requestLog - now)),
               requests)
         else (Admitted (maxRequests cfg)
                        (max 0 (maxRequests cfg - count requestLog))
                        (ceilDiv1000 (resetTime requestLog)),
               requests))"

text \<open>A sequence of calls with the same key, at the given times, in order.\<close>

fun checks ::
  "RateLimitConfig \<Rightarrow> (string \<rightharpoonup> RequestLog) \<Rightarrow> string \<Rightarrow> int list
     \<Rightarrow> decision list \<times> (string \<rightharpoonup> RequestLog)" where
  "checks cfg requests key [] = ([], requests)"
| "checks cfg requests key (now # nows) =
     (let (d, requests1) = middleware cfg requests key now;
          (ds, requests2) = checks cfg requests1 key nows
      in (d # ds, requests2))"

fun isAdmitted :: "decision \<Rightarrow> bool" where
  "isAdmitted (Admitted _ _ _) = True"
| "isAdmitted (Rejected _ _) = False"

text \<open>\<^verbatim>\<open>cleanup\<close>: the periodic sweep deletes every entry whose window has ended.\<close>

definition cleanup :: "(string \<rightharpoonup> RequestLog) \<Rightarrow> int \<Rightarrow> (string \<rightharpoonup> RequestLog)" where
  "cleanup requests now =
     (\<lambda>k. case requests k of
             None \<Rightarrow> None
           | Some rl \<Rightarrow> if resetTime rl \<le> now then None else Some rl)"

text \<open>The four instances the module exports.\<close>

definition shopifyApiLimiter :: RateLimitConfig where
  "shopifyApiLimiter =
     \<lparr>windowMs = 1000, maxRequests = 2,
      message = Some ''Shopify API rate limit exceeded. Please wait before making another request.''\<rparr>"

definition generalApiLimiter :: RateLimitConfig where
  "generalApiLimiter =
     \<lparr>windowMs = 60 * 1000, maxRequests = 100,
      message = Some ''API rate limit exceeded. Please wait before making more requests.''\<rparr>"

definition bulkOperationLimiter :: RateLimitConfig where
  "bulkOperationLimiter =
     \<lparr>windowMs = 60 * 1000, maxRequests = 5,
      message = Some ''Bulk operation rate limit exceeded. Please wait before starting another bulk operation.''\<rparr>"

definition exportLimiter :: RateLimitConfig where
  "exportLimiter =
     \<lparr>windowMs = 60 * 60 * 1000, maxRequests = 10,
      message = Some ''Export rate limit exceeded. Please wait before requesting another export.''\<rparr>"

text \<open>
  The outcome of a call as a function of the entry the call leaves in the map; used to
  state the lemmas about \<open>middleware\<close>.
\<close>

definition verdict :: "RateLimitConfig \<Rightarrow> RequestLog \<Rightarrow> int \<Rightarrow> decision" where
  "verdict cfg rl now =
     (if count rl > maxRequests cfg
      then Rejected (rejectText cfg) (ceilDiv1000 (resetTime rl - now))
      else Admitted (maxRequests cfg) (max 0 (maxRequests cfg - count rl))
                    (ceilDiv1000 (resetTime rl)))"

section \<open>Strings and numbers of the JavaScript that the model needs\<close>

text \<open>Template literals print a non-negative integer in decimal.\<close>

definition digitChar :: "nat \<Rightarrow> char" where
  "digitChar d = char_of (48 + d)"

fun showNat :: "nat \<Rightarrow> string" where
  "showNat n = (if n < 10 then [digitChar n] else showNat (n div 10) @ [digitChar (n mod 10)])"

declare showNat.simps [simp del]

text \<open>The regular expression class \<^verbatim>\<open>\d\<close>, and the value of a run of digits.\<close>

definition isDigit :: "char \<Rightarrow> bool" where
  "isDigit c = (48 \<le> (of_char c :: nat) \<and> (of_char c :: nat) \<le> 57)"

definition digitVal :: "char \<Rightarrow> nat" where
  "digitVal c = of_char c - 48"

definition parseDigits :: "string \<Rightarrow> nat" where
  "parseDigits ds = foldl (\<lambda>a c. 10 * a + digitVal c) 0 ds"

text \<open>\<^verbatim>\<open>s.startsWith(p)\<close> and \<^verbatim>\<open>s.includes(p)\<close>.\<close>

definition startsWith :: "string \<Rightarrow> string \<Rightarrow> bool" where
  "startsWith s p = (take (length p) s = p)"

fun includesStr :: "string \<Rightarrow> string \<Rightarrow> bool" where
  "includesStr [] p = (p = [])"
| "includesStr (c # cs) p = (startsWith (c # cs) p \<or> includesStr cs p)"

text \<open>\<^verbatim>\<open>xs.join(sep)\<close>\<close>

fun joinWith :: "string \<Rightarrow> string list \<Rightarrow> string" where
  "joinWith sep [] = []"
| "joinWith sep [x] = x"
| "joinWith sep (x # y # ys) = x @ sep @ joinWith sep (y # ys)"

text \<open>
  A JavaScript number as far as the retry code tells numbers apart: \<^verbatim>\<open>NaN\<close> or an
  integer.  \<^verbatim>\<open>parseInt(s, 10)\<close> skips leading white space, reads an optional sign and the
  longest run of decimal digits, and gives \<^verbatim>\<open>NaN\<close> when there is no digit.
\<close>

datatype jsnum = NaN | Num int

definition isSpace :: "char \<Rightarrow> bool" where
  "isSpace c = (of_char c \<in> {9, 10, 11, 12, 13, 32 :: nat})"

definition parseInt10 :: "string \<Rightarrow> jsnum" where
  "parseInt10 s =
     (let s1 = dropWhile isSpace s;
          neg = (s1 \<noteq> [] \<and> hd s1 = CHR ''-'');
          s2 = (if s1 \<noteq> [] \<and> (hd s1 = CHR ''-'' \<or> hd s1 = CHR ''+'') then tl s1 else s1);
          ds = takeWhile isDigit s2
      in if ds = [] then NaN
         else Num (if neg then - int (parseDigits ds) else int (parseDigits ds)))"

fun times1000 :: "jsnum \<Rightarrow> jsnum" where
  "times1000 NaN = NaN"
| "times1000 (Num v) = Num (v * 1000)"

section \<open>The Shopify client (server/services/shopify.ts)\<close>

text \<open>
  The remote service and \<^verbatim>\<open>Math.random\<close> are the environment: a state \<open>'w\<close> that the code
  cannot see, a \<open>fetch\<close> that answers a request and moves the state, and a \<open>random\<close> that
  yields the next number.  A \<open>fetch\<close> either rejects (network failure) or resolves to a
  response with a status, a status text, the \<^verbatim>\<open>Retry-After\<close> header when present, and a body.
  Reading the body either throws (\<open>BodyInvalid\<close>, with the message of what is thrown), or
  finds a truthy \<^verbatim>\<open>errors\<close> member (\<open>BodyErrors\<close>, with its JSON text), or yields the data.
\<close>

record ApiRequest =
  url :: string
  token :: string
  operation :: string
  variables :: "(string \<times> string) list"

datatype 'd body = BodyInvalid string | BodyErrors string | BodyData 'd

datatype 'd fetch_outcome =
    FetchFailed string
  | FetchResponse nat string "string option" "'d body"

record ('w, 'd) Remote =
  fetch :: "'w \<Rightarrow> ApiRequest \<Rightarrow> 'd fetch_outcome \<times> 'w"
  random :: "'w \<Rightarrow> real \<times> 'w"

text \<open>
  A thrown \<^verbatim>\<open>Error\<close>: its message and, when the code has set it, the \<^verbatim>\<open>retryAfter\<close>
  property.
\<close>

record JsError =
  errorText :: string
  retryAfter :: "jsnum option"

definition plainError :: "string \<Rightarrow> JsError" where
  "plainError m = \<lparr>errorText = m, retryAfter = None\<rparr>"

text \<open>
  What the process does that can be seen from outside, in order: a request sent to the
  remote service, a pause (\<^verbatim>\<open>setTimeout\<close>, in milliseconds), a check of a request throttle
  for a key.  The client produces the first two.
\<close>

datatype effect =
    Dispatch ApiRequest
  | Sleep real
  | ThrottleCheck string

definition responseOk :: "nat \<Rightarrow> bool" where
  "responseOk status = (200 \<le> status \<and> status \<le> 299)"

text \<open>
  The error that \<^verbatim>\<open>makeGraphQLRequest\<close> throws for a response that is not ok: the
  \<^verbatim>\<open>retryAfter\<close> property is set for status 429 with a non-empty \<^verbatim>\<open>Retry-After\<close> header,
  to \<^verbatim>\<open>parseInt(retryAfter, 10) * 1000\<close>.
\<close>

definition httpError :: "nat \<Rightarrow> string \<Rightarrow> string option \<Rightarrow> JsError" where
  "httpError status statusText retryAfterHeader =
     \<lparr>errorText = ''Shopify API error: '' @ showNat status @ '' '' @ statusText,
      retryAfter =
        (case retryAfterHeader of
           None \<Rightarrow> None
         | Some h \<Rightarrow>
             if status = 429 \<and> h \<noteq> [] then Some (times1000 (parseInt10 h)) else None)\<rparr>"

text \<open>\<^verbatim>\<open>makeGraphQLRequest\<close>: one \<^verbatim>\<open>fetch\<close>; a failure is a thrown error.\<close>

definition makeGraphQLRequest ::
  "('w, 'd) Remote \<Rightarrow> ApiRequest \<Rightarrow> 'w \<Rightarrow> (JsError + 'd) \<times> 'w" where
  "makeGraphQLRequest env req w =
     (case fetch env w req of
        (FetchFailed m, w') \<Rightarrow> (Inl (plainError m), w')
      | (FetchResponse status statusText retryAfterHeader b, w') \<Rightarrow>
          if \<not> responseOk status
          then (Inl (httpError status statusText retryAfterHeader), w')
          else (case b of
                  BodyInvalid m \<Rightarrow> (Inl (plainError m), w')
                | BodyErrors j \<Rightarrow> (Inl (plainError (''GraphQL errors: '' @ j)), w')
                | BodyData d \<Rightarrow> (Inr d, w')))"

text \<open>
  \<^verbatim>\<open>error.message.match(/Shopify API error: (\d+)/)\<close>: the leftmost place where the text is
  followed by a digit, and there the longest run of digits.
\<close>

fun matchStatus :: "string \<Rightarrow> string option" where
  "matchStatus [] = None"
| "matchStatus (c # cs) =
     (if startsWith (c # cs) ''Shopify API error: '' \<and>
         takeWhile isDigit (drop (length ''Shopify API error: '') (c # cs)) \<noteq> []
      then Some (takeWhile isDigit (drop (length ''Shopify API error: '') (c # cs)))
      else matchStatus cs)"

text \<open>The test that ends the retries: a 4xx status other than 429 in the message.\<close>

definition nonRetryable :: "JsError \<Rightarrow> bool" where
  "nonRetryable error =
     (includesStr (errorText error) ''Shopify API error:'' \<and>
      (case matchStatus (errorText error) of
         None \<Rightarrow> False
       | Some ds \<Rightarrow>
           let status = parseDigits ds
           in status \<ge> 400 \<and> status < 500 \<and> status \<noteq> 429))"

text \<open>
  The delay before the next attempt: the error's \<^verbatim>\<open>retryAfter\<close> when it is a truthy number
  (so neither \<^verbatim>\<open>NaN\<close> nor 0), otherwise \<^verbatim>\<open>Math.pow(2, attempt - 1) * 1000\<close> plus
  \<^verbatim>\<open>Math.random() * 500\<close>.  Attempts are counted from 1.
\<close>

definition backoffDelay :: "nat \<Rightarrow> real \<Rightarrow> real" where
  "backoffDelay attempt u = 2 ^ (attempt - 1) * 1000 + u * 500"

definition retryDelay ::
  "('w, 'd) Remote \<Rightarrow> nat \<Rightarrow> JsError \<Rightarrow> 'w \<Rightarrow> real \<times> 'w" where
  "retryDelay env attempt error w =
     (case retryAfter error of
        Some (Num v) \<Rightarrow>
          if v \<noteq> 0 then (real_of_int v, w)
          else (let (u, w') = random env w in (backoffDelay attempt u, w'))
      | _ \<Rightarrow> (let (u, w') = random env w in (backoffDelay attempt u, w')))"

text \<open>
  The loop of \<^verbatim>\<open>makeGraphQLRequestWithRetry\<close>, from attempt \<open>attempt\<close> on, with the
  \<^verbatim>\<open>lastError\<close> so far.  The result carries the effects in order.
\<close>

function retryLoop ::
  "('w, 'd) Remote \<Rightarrow> ApiRequest \<Rightarrow> nat \<Rightarrow> nat \<Rightarrow> JsError option \<Rightarrow> 'w
     \<Rightarrow> (JsError + 'd) \<times> 'w \<times> effect list" where
  "retryLoop env req maxRetries attempt lastError w =
     (if attempt \<le> maxRetries
      then (case makeGraphQLRequest env req w of
              (Inr d, w1) \<Rightarrow> (Inr d, w1, [Dispatch req])
            | (Inl error, w1) \<Rightarrow>
                if nonRetryable error then (Inl error, w1, [Dispatch req])
                else if attempt = maxRetries then (Inl error, w1, [Dispatch req])
                else (case retryLoop env req maxRetries (attempt + 1) (Some error)
                             (snd (retryDelay env attempt error w1)) of
                        (r, w3, tr) \<Rightarrow>
                          (r, w3, Dispatch req # Sleep (fst (retryDelay env attempt error w1)) # tr)))
      else (Inl (case lastError of
                   Some e \<Rightarrow> e
                 | None \<Rightarrow> plainError ''All retry attempts failed''),
            w, []))"
  by pat_completeness auto
termination
  by (relation "measure (\<lambda>(env, req, maxRetries, attempt, lastError, w). maxRetries + 1 - attempt)")
     auto

declare retryLoop.simps [simp del]

definition makeGraphQLRequestWithRetry ::
  "('w, 'd) Remote \<Rightarrow> ApiRequest \<Rightarrow> 'w \<Rightarrow> (JsError + 'd) \<times> 'w \<times> effect list" where
  "makeGraphQLRequestWithRetry env req w = retryLoop env req 3 1 None w"

text \<open>The service object: the shop's endpoint and its access token.\<close>

record ShopifyService =
  baseUrl :: string
  accessToken :: string

definition createShopifyService :: "string \<Rightarrow> string \<Rightarrow> ShopifyService" where
  "createShopifyService shopDomain tok =
     \<lparr>baseUrl = ''https://'' @ shopDomain @ ''/admin/api/2023-10/graphql.json'',
      accessToken = tok\<rparr>"

text \<open>
  The data of a \<^verbatim>\<open>productUpdate\<close> answer: its \<^verbatim>\<open>userErrors\<close>, each a field and a
  message.
\<close>

type_synonym ShopifyProductUpdateResponse = "(string \<times> string) list"

definition updateProductVendor ::
  "('w, ShopifyProductUpdateResponse) Remote \<Rightarrow> ShopifyService \<Rightarrow> string \<Rightarrow> string \<Rightarrow> 'w
     \<Rightarrow> (JsError + ShopifyProductUpdateResponse) \<times> 'w \<times> effect list" where
  "updateProductVendor env svc productId vendor w =
     makeGraphQLRequestWithRetry env
       \<lparr>url = baseUrl svc, token = accessToken svc, operation = ''UpdateProductVendor'',
        variables = [(''productId'', productId), (''vendor'', vendor)]\<rparr> w"

record BulkUpdateResult =
  successCount :: nat
  failureCount :: nat
  errors :: "(string \<times> string) list"
  userErrors :: "(string \<times> string \<times> string) list"

text \<open>\<^verbatim>\<open>productIds.indexOf(productId)\<close> for an element of the list.\<close>

fun indexOf :: "string list \<Rightarrow> string \<Rightarrow> nat" where
  "indexOf [] x = 0"
| "indexOf (y # ys) x = (if y = x then 0 else Suc (indexOf ys x))"

text \<open>
  One pass of the loop of \<^verbatim>\<open>bulkUpdateVendor\<close> for \<open>productId\<close>, and the loop over the
  rest of the list; \<open>productIds\<close> is the whole list, which the pacing test reads.
\<close>

definition bulkUpdateItem ::
  "('w, ShopifyProductUpdateResponse) Remote \<Rightarrow> ShopifyService \<Rightarrow> string list \<Rightarrow> string
     \<Rightarrow> string \<Rightarrow> BulkUpdateResult \<times> 'w \<times> effect list
     \<Rightarrow> BulkUpdateResult \<times> 'w \<times> effect list" where
  "bulkUpdateItem env svc productIds vendor productId acc =
     (case acc of (result, w, tr) \<Rightarrow>
        (case updateProductVendor env svc productId vendor w of
           (Inr response, w1, tr1) \<Rightarrow>
             (if length response > 0
              then result\<lparr>failureCount := failureCount result + 1,
                          userErrors := userErrors result
                                          @ map (\<lambda>(f, m). (productId, f, m)) response\<rparr>
              else result\<lparr>successCount := successCount result + 1\<rparr>,
              w1,
              tr @ tr1 @ (if indexOf productIds productId + 1 < length productIds
                          then [Sleep 250] else []))
         | (Inl error, w1, tr1) \<Rightarrow>
             (result\<lparr>failureCount := failureCount result + 1,
                     errors := errors result @ [(productId, errorText error)]\<rparr>,
              w1, tr @ tr1)))"

definition bulkUpdateVendor ::
  "('w, ShopifyProductUpdateResponse) Remote \<Rightarrow> ShopifyService \<Rightarrow> string list \<Rightarrow> string
     \<Rightarrow> 'w \<Rightarrow> BulkUpdateResult \<times> 'w \<times> effect list" where
  "bulkUpdateVendor env svc productIds vendor w =
     foldl (\<lambda>acc productId. bulkUpdateItem env svc productIds vendor productId acc)
       (\<lparr>successCount = 0, failureCount = 0, errors = [], userErrors = []\<rparr>, w, [])
       productIds"

text \<open>
  Effects of a run of the retry wrapper, for stating what it does between attempts:
  \<open>dispatches\<close> counts the requests sent; \<open>pacedAttempts\<close> holds of a sequence that is one
  request, or a request, a sleep and again such a sequence; \<open>gated c\<close> holds of a sequence
  in which every request comes after a throttle check made since the request before it
  (\<open>c\<close>: a check has been made already).
\<close>

fun isDispatch :: "effect \<Rightarrow> bool" where
  "isDispatch (Dispatch _) = True"
| "isDispatch _ = False"

fun isThrottleCheck :: "effect \<Rightarrow> bool" where
  "isThrottleCheck (ThrottleCheck _) = True"
| "isThrottleCheck _ = False"

definition dispatches :: "effect list \<Rightarrow> nat" where
  "dispatches tr = length (filter isDispatch tr)"

fun pacedAttempts :: "effect list \<Rightarrow> bool" where
  "pacedAttempts [Dispatch r] = True"
| "pacedAttempts (Dispatch r # Sleep d # es) = pacedAttempts es"
| "pacedAttempts _ = False"

fun gated :: "bool \<Rightarrow> effect list \<Rightarrow> bool" where
  "gated c [] = True"
| "gated c (ThrottleCheck k # es) = gated True es"
| "gated c (Dispatch r # es) = (c \<and> gated False es)"
| "gated c (Sleep d # es) = gated c es"

text \<open>
  \<open>attemptsWith req ds\<close> is the sequence of effects that sends \<open>req\<close> once and then, for each
  delay of \<open>ds\<close> in turn, sleeps for it and sends \<open>req\<close> again, with nothing else in between.
\<close>

fun attemptsWith :: "ApiRequest \<Rightarrow> real list \<Rightarrow> effect list" where
  "attemptsWith req [] = [Dispatch req]"
| "attemptsWith req (d # ds) = Dispatch req # Sleep d # attemptsWith req ds"
section \<open>Job records and their store (shared/schema.ts, server/storage.ts)\<close>

datatype job_status = PENDING | RUNNING | SUCCESS | FAILED

text \<open>
  A row of \<^verbatim>\<open>bulk_jobs\<close>.  The column \<^verbatim>\<open>id\<close> is \<open>jobId\<close> here; timestamps are
  milliseconds, \<open>None\<close> is SQL \<^verbatim>\<open>null\<close>.
\<close>

record BulkJob =
  jobId :: string
  shopDomain :: string
  productIds :: "string list"
  targetVendor :: string
  status :: job_status
  errorMessage :: "string option"
  processedCount :: nat
  totalCount :: nat
  createdAt :: "int option"
  updatedAt :: "int option"
  completedAt :: "int option"

text \<open>
  \<^verbatim>\<open>Partial<BulkJob>\<close> as the processor uses it: each member is either absent or the value
  to store.
\<close>

record JobUpdates =
  setStatus :: "job_status option"
  setProcessedCount :: "nat option"
  setErrorMessage :: "string option option"
  setCompletedAt :: "int option option"

definition noUpdates :: JobUpdates where
  "noUpdates = \<lparr>setStatus = None, setProcessedCount = None, setErrorMessage = None,
                 setCompletedAt = None\<rparr>"

record Storage =
  bulkJobs :: "string \<rightharpoonup> BulkJob"
  shopTokens :: "string \<rightharpoonup> string option"

text \<open>
  \<open>shopTokens\<close> is the \<^verbatim>\<open>accessToken\<close> column of \<^verbatim>\<open>shop_settings\<close> by shop domain.
  The store is a map that never fails: a database error is outside this model.
\<close>

definition getBulkJob :: "Storage \<Rightarrow> string \<Rightarrow> BulkJob option" where
  "getBulkJob st i = bulkJobs st i"

definition applyUpdates :: "JobUpdates \<Rightarrow> int \<Rightarrow> BulkJob \<Rightarrow> BulkJob" where
  "applyUpdates u now job =
     job\<lparr>status := (case setStatus u of None \<Rightarrow> status job | Some s \<Rightarrow> s),
         processedCount := (case setProcessedCount u of None \<Rightarrow> processedCount job | Some n \<Rightarrow> n),
         errorMessage := (case setErrorMessage u of None \<Rightarrow> errorMessage job | Some m \<Rightarrow> m),
         completedAt := (case setCompletedAt u of None \<Rightarrow> completedAt job | Some c \<Rightarrow> c),
         updatedAt := Some now\<rparr>"

text \<open>
  \<^verbatim>\<open>updateBulkJob\<close>: an SQL update of the row with that id, returning the updated row
  (nothing when there is no such row).
\<close>

definition updateBulkJob ::
  "Storage \<Rightarrow> string \<Rightarrow> JobUpdates \<Rightarrow> int \<Rightarrow> BulkJob option \<times> Storage" where
  "updateBulkJob st i u now =
     (case bulkJobs st i of
        None \<Rightarrow> (None, st)
      | Some job \<Rightarrow>
          (Some (applyUpdates u now job),
           st\<lparr>bulkJobs := (bulkJobs st)(i \<mapsto> applyUpdates u now job)\<rparr>))"

record InsertBulkJob =
  newShopDomain :: string
  newProductIds :: "string list"
  newTargetVendor :: string
  newStatus :: "job_status option"
  newTotalCount :: nat

text \<open>
  \<^verbatim>\<open>createBulkJob\<close>; \<open>i\<close> is the identifier the database generates
  (\<^verbatim>\<open>gen_random_uuid()\<close>), taken as fresh.
\<close>

definition createBulkJob :: "Storage \<Rightarrow> string \<Rightarrow> InsertBulkJob \<Rightarrow> int \<Rightarrow> BulkJob \<times> Storage" where
  "createBulkJob st i job now =
     (let newJob = \<lparr>jobId = i, shopDomain = newShopDomain job, productIds = newProductIds job,
                    targetVendor = newTargetVendor job,
                    status = (case newStatus job of None \<Rightarrow> PENDING | Some s \<Rightarrow> s),
                    errorMessage = None, processedCount = 0,
                    totalCount = length (newProductIds job),
                    createdAt = Some now, updatedAt = Some now, completedAt = None\<rparr>
      in (newJob, st\<lparr>bulkJobs := (bulkJobs st)(i \<mapsto> newJob)\<rparr>))"

section \<open>The bulk job processor (server/services/bulk-jobs.ts, the revision with failure counts)\<close>

text \<open>
  The processor owns the set \<^verbatim>\<open>processingJobs\<close>.  What it calls is given by \<open>Deps\<close>: the
  client's \<^verbatim>\<open>bulkUpdateVendor\<close>, which may throw; the clock read by \<^verbatim>\<open>new Date()\<close>; and
  \<open>progressWriteError\<close>, which tells for a state of the environment whether the write of
  the progress inside the loop throws, and with which message.  The other calls of the
  store in \<^verbatim>\<open>processJob\<close> stand outside the try block of the batch and are taken to
  succeed.
\<close>

record Processor =
  storage :: Storage
  processingJobs :: "string set"

record 'w Deps =
  bulkUpdate :: "'w \<Rightarrow> ShopifyService \<Rightarrow> string list \<Rightarrow> string \<Rightarrow> (JsError + BulkUpdateResult) \<times> 'w"
  clock :: "'w \<Rightarrow> int"
  progressWriteError :: "'w \<Rightarrow> string option"

text \<open>The Shopify client as the processor's client, with a store that takes every write.\<close>

definition shopifyDeps ::
  "('w, ShopifyProductUpdateResponse) Remote \<Rightarrow> ('w \<Rightarrow> int) \<Rightarrow> 'w Deps" where
  "shopifyDeps env clk =
     \<lparr>bulkUpdate = (\<lambda>w svc ids vendor.
                      case bulkUpdateVendor env svc ids vendor w of (r, w', tr) \<Rightarrow> (Inr r, w')),
      clock = clk,
      progressWriteError = (\<lambda>w. None)\<rparr>"

text \<open>The local variables of the loop in \<^verbatim>\<open>processJob\<close>.\<close>

record Totals =
  processed :: nat
  succeeded :: nat
  failed :: nat
  allErrors :: "string list"

definition batchSize :: nat where
  "batchSize = 10"

definition fmtUserError :: "string \<times> string \<times> string \<Rightarrow> string" where
  "fmtUserError ue =
     (case ue of (productId, fld, msg) \<Rightarrow>
        ''Product '' @ productId @ '': '' @ msg @ '' (field: '' @ fld @ '')'')"

definition fmtApiError :: "string \<times> string \<Rightarrow> string" where
  "fmtApiError e = (case e of (productId, err) \<Rightarrow> ''Product '' @ productId @ '': '' @ err)"

text \<open>
  The body of the loop for the batch that starts at index \<open>i\<close>.  The write of the progress
  is the last statement of the try block: when it throws, the counts of the answer have
  been added already and the catch block adds the batch once more.
\<close>

definition batchIteration ::
  "'w Deps \<Rightarrow> string \<Rightarrow> BulkJob \<Rightarrow> ShopifyService \<Rightarrow> nat \<Rightarrow> Storage \<times> 'w \<times> Totals
     \<Rightarrow> Storage \<times> 'w \<times> Totals" where
  "batchIteration deps jid job svc i acc =
     (case acc of (st, w, t) \<Rightarrow>
        (let batch = take batchSize (drop i (productIds job))
         in case bulkUpdate deps w svc batch (targetVendor job) of
              (Inr result, w1) \<Rightarrow>
                (let t1 = \<lparr>processed = processed t + length batch,
                           succeeded = succeeded t + successCount result,
                           failed = failed t + failureCount result,
                           allErrors = allErrors t
                             @ (if length (userErrors result) > 0
                                then map fmtUserError (userErrors result) else [])
                             @ (if length (errors result) > 0
                                then map fmtApiError (errors result) else [])\<rparr>
                 in case progressWriteError deps w1 of
                      None \<Rightarrow>
                        (snd (updateBulkJob st jid
                                (noUpdates\<lparr>setProcessedCount := Some (processed t1)\<rparr>)
                                (clock deps w1)),
                         w1, t1)
                    | Some m \<Rightarrow>
                        (st, w1,
                         t1\<lparr>failed := failed t1 + length batch,
                            processed := processed t1 + length batch,
                            allErrors := allErrors t1
                              @ [''Batch '' @ showNat (i div batchSize + 1) @ '': '' @ m]\<rparr>))
            | (Inl error, w1) \<Rightarrow>
                (st, w1,
                 t\<lparr>failed := failed t + length batch,
                   processed := processed t + length batch,
                   allErrors := allErrors t
                     @ [''Batch '' @ showNat (i div batchSize + 1) @ '': '' @ errorText error]\<rparr>)))"

function batchLoop ::
  "'w Deps \<Rightarrow> string \<Rightarrow> BulkJob \<Rightarrow> ShopifyService \<Rightarrow> nat \<Rightarrow> Storage \<times> 'w \<times> Totals
     \<Rightarrow> Storage \<times> 'w \<times> Totals" where
  "batchLoop deps jid job svc i acc =
     (if i < length (productIds job)
      then batchLoop deps jid job svc (i + batchSize) (batchIteration deps jid job svc i acc)
      else acc)"
  by pat_completeness auto
termination
  by (relation "measure (\<lambda>(deps, jid, job, svc, i, acc). length (productIds job) - i)")
     (auto simp: batchSize_def)

declare batchLoop.simps [simp del]

definition finalStatus :: "Totals \<Rightarrow> job_status" where
  "finalStatus t = (if failed t = 0 then SUCCESS else FAILED)"

definition errorDigest :: "Totals \<Rightarrow> string option" where
  "errorDigest t =
     (if length (allErrors t) > 0
      then Some (showNat (failed t) @ '' products failed. Errors: ''
                   @ joinWith ''; '' (take 5 (allErrors t))
                   @ (if length (allErrors t) > 5 then ''...'' else []))
      else None)"

text \<open>
  How a call of \<^verbatim>\<open>processJob\<close> ends: at once because the job is in the guard set, after
  the loop (with the totals that the completion log entry reports), or in the outer
  \<^verbatim>\<open>catch\<close> with the message of what was thrown.
\<close>

datatype outcome = AlreadyProcessing | Completed Totals | Aborted string

definition accessTokenOf :: "Storage \<Rightarrow> string \<Rightarrow> string option" where
  "accessTokenOf st domain =
     (case shopTokens st domain of
        Some (Some tok) \<Rightarrow> if tok = [] then None else Some tok
      | _ \<Rightarrow> None)"

definition abortJob :: "'w Deps \<Rightarrow> string \<Rightarrow> string \<Rightarrow> Processor \<Rightarrow> 'w \<Rightarrow> Processor \<times> 'w \<times> outcome" where
  "abortJob deps jid msg p w =
     (p\<lparr>storage := snd (updateBulkJob (storage p) jid
                          (noUpdates\<lparr>setStatus := Some FAILED, setErrorMessage := Some (Some msg),
                                     setCompletedAt := Some (Some (clock deps w))\<rparr>)
                          (clock deps w)),
        processingJobs := processingJobs p - {jid}\<rparr>,
      w, Aborted msg)"

text \<open>
  \<^verbatim>\<open>processJob\<close> in three parts.  \<open>startJob\<close> is the code before the loop: the guard test,
  the entry in the guard set, the read of the job, the write of status \<open>RUNNING\<close> and the
  look-up of the access token; it ends the call (\<open>Inl\<close>) or hands the job it read and the
  service object to the loop (\<open>Inr\<close>).  The loop is \<open>batchLoop\<close>.  \<open>finishJob\<close> is the code
  after the loop: the final write and, from the \<^verbatim>\<open>finally\<close> block, the removal from the
  guard set.
\<close>

definition startJob ::
  "'w Deps \<Rightarrow> string \<Rightarrow> Processor \<times> 'w
     \<Rightarrow> (Processor \<times> 'w \<times> outcome) + (Processor \<times> BulkJob \<times> ShopifyService)" where
  "startJob deps jid pw =
     (case pw of (p, w) \<Rightarrow>
        if jid \<in> processingJobs p then Inl (p, w, AlreadyProcessing)
        else
          (let p1 = p\<lparr>processingJobs := insert jid (processingJobs p)\<rparr>
           in case getBulkJob (storage p1) jid of
                None \<Rightarrow> Inl (abortJob deps jid ''Job not found'' p1 w)
              | Some job \<Rightarrow>
                  (let st2 = snd (updateBulkJob (storage p1) jid
                                    (noUpdates\<lparr>setStatus := Some RUNNING\<rparr>) (clock deps w))
                   in case accessTokenOf st2 (shopDomain job) of
                        None \<Rightarrow>
                          Inl (abortJob deps jid ''Shop access token not found''
                                 (p1\<lparr>storage := st2\<rparr>) w)
                      | Some tok \<Rightarrow>
                          Inr (p1\<lparr>storage := st2\<rparr>, job,
                               createShopifyService (shopDomain job) tok))))"

definition finishJob ::
  "'w Deps \<Rightarrow> string \<Rightarrow> Processor \<Rightarrow> Storage \<times> 'w \<times> Totals \<Rightarrow> Processor \<times> 'w \<times> outcome" where
  "finishJob deps jid p acc =
     (case acc of (st3, w3, t) \<Rightarrow>
        (p\<lparr>storage := snd (updateBulkJob st3 jid
                             \<lparr>setStatus = Some (finalStatus t),
                              setProcessedCount = Some (processed t),
                              setErrorMessage = Some (errorDigest t),
                              setCompletedAt = Some (Some (clock deps w3))\<rparr>
                             (clock deps w3)),
           processingJobs := processingJobs p - {jid}\<rparr>,
         w3, Completed t))"

definition processJob :: "'w Deps \<Rightarrow> string \<Rightarrow> Processor \<times> 'w \<Rightarrow> Processor \<times> 'w \<times> outcome" where
  "processJob deps jid pw =
     (case startJob deps jid pw of
        Inl done \<Rightarrow> done
      | Inr (p1, job, svc) \<Rightarrow>
          finishJob deps jid p1
            (batchLoop deps jid job svc 0
               (storage p1, snd pw,
                \<lparr>processed = 0, succeeded = 0, failed = 0, allErrors = []\<rparr>)))"

text \<open>
  \<^verbatim>\<open>createJob\<close>, \<^verbatim>\<open>retryJob\<close> and \<^verbatim>\<open>cancelJob\<close>.  A thrown \<^verbatim>\<open>Error\<close> is \<open>Inl\<close> of its
  message.  \<^verbatim>\<open>createJob\<close> and \<^verbatim>\<open>retryJob\<close> start \<^verbatim>\<open>processJob\<close> without awaiting it: the
  started run is a later call of \<open>processJob\<close> on the state they return.  \<open>now\<close> is the
  time \<^verbatim>\<open>new Date()\<close> reads.
\<close>

definition createJob :: "Processor \<Rightarrow> string \<Rightarrow> InsertBulkJob \<Rightarrow> int \<Rightarrow> BulkJob \<times> Processor" where
  "createJob p i jobData now =
     (case createBulkJob (storage p) i jobData now of
        (job, st) \<Rightarrow> (job, p\<lparr>storage := st\<rparr>))"

definition retryJob :: "Processor \<Rightarrow> string \<Rightarrow> int \<Rightarrow> (string + BulkJob option) \<times> Processor" where
  "retryJob p jid now =
     (case getBulkJob (storage p) jid of
        None \<Rightarrow> (Inl ''Job not found'', p)
      | Some job \<Rightarrow>
          if status job = RUNNING then (Inl ''Job is currently running'', p)
          else (case updateBulkJob (storage p) jid
                       \<lparr>setStatus = Some PENDING, setProcessedCount = Some 0,
                        setErrorMessage = Some None, setCompletedAt = Some None\<rparr> now of
                  (updatedJob, st) \<Rightarrow> (Inr updatedJob, p\<lparr>storage := st\<rparr>)))"

definition cancelJob :: "Processor \<Rightarrow> string \<Rightarrow> int \<Rightarrow> (string + BulkJob option) \<times> Processor" where
  "cancelJob p jid now =
     (case getBulkJob (storage p) jid of
        None \<Rightarrow> (Inl ''Job not found'', p)
      | Some job \<Rightarrow>
          if status job \<noteq> RUNNING \<and> status job \<noteq> PENDING
          then (Inl ''Job cannot be cancelled in current status'', p)
          else (case updateBulkJob (storage p) jid
                       (noUpdates\<lparr>setStatus := Some FAILED,
                                  setErrorMessage := Some (Some ''Job cancelled by user''),
                                  setCompletedAt := Some (Some now)\<rparr>) now of
                  (updatedJob, st) \<Rightarrow>
                    (Inr updatedJob,
                     p\<lparr>processingJobs := processingJobs p - {jid}, storage := st\<rparr>)))"

section \<open>Batches and their aggregate, stated apart from the loop\<close>

text \<open>
  \<open>batches n xs\<close> cuts \<open>xs\<close> into consecutive pieces of \<open>n\<close> elements, the last one
  possibly shorter.  \<open>batchRun\<close> calls the client for a batch and gives the answer, the error
  of the progress write that follows an answer (if it throws), and the batch; \<open>runBatches\<close>
  does so for each batch of a list, in order.  A batch whose call throws counts each of its items
  as failed; a batch whose progress write throws counts what the answer says and then each
  of its items once more, as processed and as failed.
\<close>

function batches :: "nat \<Rightarrow> 'a list \<Rightarrow> 'a list list" where
  "batches n xs = (if n = 0 \<or> xs = [] then [] else take n xs # batches n (drop n xs))"
  by pat_completeness auto
termination
  by (relation "measure (\<lambda>(n, xs). length xs)") auto

declare batches.simps [simp del]

definition batchRun ::
  "'w Deps \<Rightarrow> ShopifyService \<Rightarrow> string \<Rightarrow> string list \<Rightarrow> 'w
     \<Rightarrow> (JsError + BulkUpdateResult) \<times> string option \<times> string list" where
  "batchRun deps svc vendor b w =
     (fst (bulkUpdate deps w svc b vendor),
      (case fst (bulkUpdate deps w svc b vendor) of
         Inl e \<Rightarrow> None
       | Inr r \<Rightarrow> progressWriteError deps (snd (bulkUpdate deps w svc b vendor))),
      b)"

fun runBatches ::
  "'w Deps \<Rightarrow> ShopifyService \<Rightarrow> string \<Rightarrow> string list list \<Rightarrow> 'w
     \<Rightarrow> ((JsError + BulkUpdateResult) \<times> string option \<times> string list) list" where
  "runBatches deps svc vendor [] w = []"
| "runBatches deps svc vendor (b # bs) w =
     batchRun deps svc vendor b w
       # runBatches deps svc vendor bs (snd (bulkUpdate deps w svc b vendor))"

fun batchFailureCount :: "(JsError + BulkUpdateResult) \<times> string option \<times> string list \<Rightarrow> nat" where
  "batchFailureCount (Inr r, None, b) = failureCount r"
| "batchFailureCount (Inr r, Some m, b) = failureCount r + length b"
| "batchFailureCount (Inl e, x, b) = length b"

fun batchSuccessCount :: "(JsError + BulkUpdateResult) \<times> string option \<times> string list \<Rightarrow> nat" where
  "batchSuccessCount (Inr r, x, b) = successCount r"
| "batchSuccessCount (Inl e, x, b) = 0"

fun batchProcessedCount :: "(JsError + BulkUpdateResult) \<times> string option \<times> string list \<Rightarrow> nat" where
  "batchProcessedCount (Inr r, None, b) = length b"
| "batchProcessedCount (Inr r, Some m, b) = length b + length b"
| "batchProcessedCount (Inl e, x, b) = length b"

definition aggregateFailureCount :: "'w Deps \<Rightarrow> BulkJob \<Rightarrow> ShopifyService \<Rightarrow> 'w \<Rightarrow> nat" where
  "aggregateFailureCount deps job svc w =
     sum_list (map batchFailureCount
                 (runBatches deps svc (targetVendor job) (batches batchSize (productIds job)) w))"

definition aggregateSuccessCount :: "'w Deps \<Rightarrow> BulkJob \<Rightarrow> ShopifyService \<Rightarrow> 'w \<Rightarrow> nat" where
  "aggregateSuccessCount deps job svc w =
     sum_list (map batchSuccessCount
                 (runBatches deps svc (targetVendor job) (batches batchSize (productIds job)) w))"

definition aggregateProcessedCount :: "'w Deps \<Rightarrow> BulkJob \<Rightarrow> ShopifyService \<Rightarrow> 'w \<Rightarrow> nat" where
  "aggregateProcessedCount deps job svc w =
     sum_list (map batchProcessedCount
                 (runBatches deps svc (targetVendor job) (batches batchSize (productIds job)) w))"


text \<open>
  The error texts that a batch contributes: for an answer, one per user error and then one
  per API error, and one more for the batch when its progress write throws; for a thrown
  call, one for the batch, with its number.  \<open>batchErrors k\<close> concatenates them for batches
  numbered from \<open>k\<close>.
\<close>

fun batchErrorTexts ::
  "nat \<Rightarrow> (JsError + BulkUpdateResult) \<times> string option \<times> string list \<Rightarrow> string list" where
  "batchErrorTexts k (Inr r, None, b) = map fmtUserError (userErrors r) @ map fmtApiError (errors r)"
| "batchErrorTexts k (Inr r, Some m, b) =
     map fmtUserError (userErrors r) @ map fmtApiError (errors r)
       @ [''Batch '' @ showNat k @ '': '' @ m]"
| "batchErrorTexts k (Inl e, x, b) = [''Batch '' @ showNat k @ '': '' @ errorText e]"

fun batchErrors ::
  "nat \<Rightarrow> ((JsError + BulkUpdateResult) \<times> string option \<times> string list) list \<Rightarrow> string list" where
  "batchErrors k [] = []"
| "batchErrors k (rb # rbs) = batchErrorTexts k rb @ batchErrors (k + 1) rbs"

definition aggregateErrors :: "'w Deps \<Rightarrow> BulkJob \<Rightarrow> ShopifyService \<Rightarrow> 'w \<Rightarrow> string list" where
  "aggregateErrors deps job svc w =
     batchErrors 1 (runBatches deps svc (targetVendor job) (batches batchSize (productIds job)) w)"

text \<open>Two job records that differ at most in \<open>processedCount\<close> and \<open>updatedAt\<close>.\<close>

definition sameJob :: "BulkJob \<Rightarrow> BulkJob \<Rightarrow> bool" where
  "sameJob j' j \<longleftrightarrow>
     status j' = status j \<and> productIds j' = productIds j \<and> totalCount j' = totalCount j \<and>
     errorMessage j' = errorMessage j \<and> completedAt j' = completedAt j \<and>
     shopDomain j' = shopDomain j \<and> targetVendor j' = targetVendor j \<and>
     jobId j' = jobId j \<and> createdAt j' = createdAt j"

section \<open>The progress a run persists\<close>

text \<open>
  \<open>storedCount st jid\<close> is the \<open>processedCount\<close> that the store holds for the job.
  \<open>progressLog\<close> follows the loop of \<open>processJob\<close> and lists that value as it stands after
  each pass; \<open>progressWrites\<close> is this list for a whole call of \<open>processJob\<close>.
\<close>

definition storedCount :: "Storage \<Rightarrow> string \<Rightarrow> nat" where
  "storedCount st jid = (case bulkJobs st jid of None \<Rightarrow> 0 | Some job \<Rightarrow> processedCount job)"

function progressLog ::
  "'w Deps \<Rightarrow> string \<Rightarrow> BulkJob \<Rightarrow> ShopifyService \<Rightarrow> nat \<Rightarrow> Storage \<times> 'w \<times> Totals \<Rightarrow> nat list" where
  "progressLog deps jid job svc i acc =
     (if i < length (productIds job)
      then storedCount (fst (batchIteration deps jid job svc i acc)) jid
             # progressLog deps jid job svc (i + batchSize) (batchIteration deps jid job svc i acc)
      else [])"
  by pat_completeness auto
termination
  by (relation "measure (\<lambda>(deps, jid, job, svc, i, acc). length (productIds job) - i)")
     (auto simp: batchSize_def)

declare progressLog.simps [simp del]

definition progressWrites :: "'w Deps \<Rightarrow> string \<Rightarrow> Processor \<times> 'w \<Rightarrow> nat list" where
  "progressWrites deps jid pw =
     (case pw of (p, w) \<Rightarrow>
        (case getBulkJob (storage p) jid of
           None \<Rightarrow> []
         | Some job \<Rightarrow>
             (let st2 = snd (updateBulkJob (storage p) jid
                               (noUpdates\<lparr>setStatus := Some RUNNING\<rparr>) (clock deps w))
              in case accessTokenOf st2 (shopDomain job) of
                   None \<Rightarrow> []
                 | Some tok \<Rightarrow>
                     progressLog deps jid job (createShopifyService (shopDomain job) tok) 0
                       (st2, w, \<lparr>processed = 0, succeeded = 0, failed = 0, allErrors = []\<rparr>))))"


text \<open>
  The batches that a run hands to the client.  \<open>recording deps\<close> is \<open>deps\<close> with a client that
  notes the list of identifiers of each call, in order, beside the environment, and behaves
  as the client of \<open>deps\<close> otherwise.
\<close>

definition recording :: "'w Deps \<Rightarrow> ('w \<times> string list list) Deps" where
  "recording deps =
     \<lparr>bulkUpdate = (\<lambda>wl svc ids vendor.
                      case bulkUpdate deps (fst wl) svc ids vendor of
                        (r, w') \<Rightarrow> (r, (w', snd wl @ [ids]))),
      clock = (\<lambda>wl. clock deps (fst wl)),
      progressWriteError = (\<lambda>wl. progressWriteError deps (fst wl))\<rparr>"

section \<open>The earlier revision of the processor\<close>

text \<open>
  \<^verbatim>\<open>src/server/services/bulk-jobs.ts\<close> holds an earlier revision of the processor.  Its
  \<^verbatim>\<open>processJob\<close> reads \<^verbatim>\<open>result.productBulkUpdate.userErrors\<close>, the answer of the earlier
  revision of the client, whose \<^verbatim>\<open>bulkUpdateVendor\<close> sends one \<^verbatim>\<open>productBulkUpdate\<close> mutation
  for the whole batch and has no retry wrapper.  The definitions of this revision carry the
  suffix \<open>rev1\<close>.  The answer of the mutation is the list of its user errors (field and
  message).
\<close>

type_synonym ShopifyBulkUpdateResponse = "(string \<times> string) list"

definition makeGraphQLRequest_rev1 ::
  "('w, 'd) Remote \<Rightarrow> ApiRequest \<Rightarrow> 'w \<Rightarrow> (JsError + 'd) \<times> 'w" where
  "makeGraphQLRequest_rev1 env req w =
     (case fetch env w req of
        (FetchFailed m, w') \<Rightarrow> (Inl (plainError m), w')
      | (FetchResponse code reason retryAfterHeader b, w') \<Rightarrow>
          if \<not> responseOk code
          then (Inl (plainError (''Shopify API error: '' @ showNat code @ '' '' @ reason)), w')
          else (case b of
                  BodyInvalid m \<Rightarrow> (Inl (plainError m), w')
                | BodyErrors j \<Rightarrow> (Inl (plainError (''GraphQL errors: '' @ j)), w')
                | BodyData d \<Rightarrow> (Inr d, w')))"

definition bulkUpdateVendor_rev1 ::
  "('w, ShopifyBulkUpdateResponse) Remote \<Rightarrow> ShopifyService \<Rightarrow> string list \<Rightarrow> string \<Rightarrow> 'w
     \<Rightarrow> (JsError + ShopifyBulkUpdateResponse) \<times> 'w" where
  "bulkUpdateVendor_rev1 env svc ids vendor w =
     makeGraphQLRequest_rev1 env
       \<lparr>url = baseUrl svc, token = accessToken svc, operation = ''BulkUpdateVendor'',
        variables = [(''productIds'', joinWith '','' ids), (''vendor'', vendor)]\<rparr> w"

text \<open>
  What this revision of \<^verbatim>\<open>processJob\<close> calls: the client (an error thrown by the call or by
  the read of its answer is \<open>Inl\<close>), the clock, and whether the write of the progress
  throws.
\<close>

record 'w Deps_rev1 =
  bulkUpdate_rev1 :: "'w \<Rightarrow> ShopifyService \<Rightarrow> string list \<Rightarrow> string
                        \<Rightarrow> (JsError + ShopifyBulkUpdateResponse) \<times> 'w"
  clock_rev1 :: "'w \<Rightarrow> int"
  progressWriteError_rev1 :: "'w \<Rightarrow> string option"

definition shopifyDeps_rev1 ::
  "('w, ShopifyBulkUpdateResponse) Remote \<Rightarrow> ('w \<Rightarrow> int) \<Rightarrow> 'w Deps_rev1" where
  "shopifyDeps_rev1 env clk =
     \<lparr>bulkUpdate_rev1 = (\<lambda>w svc ids vendor. bulkUpdateVendor_rev1 env svc ids vendor w),
      clock_rev1 = clk,
      progressWriteError_rev1 = (\<lambda>w. None)\<rparr>"

definition batchSize_rev1 :: nat where
  "batchSize_rev1 = 50"

text \<open>
  The body of the loop for the batch that starts at index \<open>i\<close>; the only local variable is
  \<^verbatim>\<open>processedCount\<close>.  User errors in the answer are logged and nothing else; a thrown error
  is logged and the batch counted as processed.  The pause of one second between batches
  changes no state.
\<close>

definition batchIteration_rev1 ::
  "'w Deps_rev1 \<Rightarrow> string \<Rightarrow> BulkJob \<Rightarrow> ShopifyService \<Rightarrow> nat \<Rightarrow> Storage \<times> 'w \<times> nat
     \<Rightarrow> Storage \<times> 'w \<times> nat" where
  "batchIteration_rev1 deps jid job svc i acc =
     (case acc of (st, w, n) \<Rightarrow>
        (let batch = take batchSize_rev1 (drop i (productIds job))
         in case bulkUpdate_rev1 deps w svc batch (targetVendor job) of
              (Inr result, w1) \<Rightarrow>
                (case progressWriteError_rev1 deps w1 of
                   None \<Rightarrow>
                     (snd (updateBulkJob st jid
                             (noUpdates\<lparr>setProcessedCount := Some (n + length batch)\<rparr>)
                             (clock_rev1 deps w1)),
                      w1, n + length batch)
                 | Some m \<Rightarrow> (st, w1, n + length batch + length batch))
            | (Inl error, w1) \<Rightarrow> (st, w1, n + length batch)))"

function batchLoop_rev1 ::
  "'w Deps_rev1 \<Rightarrow> string \<Rightarrow> BulkJob \<Rightarrow> ShopifyService \<Rightarrow> nat \<Rightarrow> Storage \<times> 'w \<times> nat
     \<Rightarrow> Storage \<times> 'w \<times> nat" where
  "batchLoop_rev1 deps jid job svc i acc =
     (if i < length (productIds job)
      then batchLoop_rev1 deps jid job svc (i + batchSize_rev1)
             (batchIteration_rev1 deps jid job svc i acc)
      else acc)"
  by pat_completeness auto
termination
  by (relation "measure (\<lambda>(deps, jid, job, svc, i, acc). length (productIds job) - i)")
     (auto simp: batchSize_rev1_def)

declare batchLoop_rev1.simps [simp del]

text \<open>
  \<^verbatim>\<open>processJob\<close> of this revision.  The code before the loop and the outer \<^verbatim>\<open>catch\<close> are those
  of the later revision; after the loop it writes status \<open>SUCCESS\<close>, the count and the time.
  The result is the processor and the environment.
\<close>

definition abortJob_rev1 ::
  "'w Deps_rev1 \<Rightarrow> string \<Rightarrow> string \<Rightarrow> Processor \<Rightarrow> 'w \<Rightarrow> Processor \<times> 'w" where
  "abortJob_rev1 deps jid msg p w =
     (p\<lparr>storage := snd (updateBulkJob (storage p) jid
                          (noUpdates\<lparr>setStatus := Some FAILED, setErrorMessage := Some (Some msg),
                                     setCompletedAt := Some (Some (clock_rev1 deps w))\<rparr>)
                          (clock_rev1 deps w)),
        processingJobs := processingJobs p - {jid}\<rparr>,
      w)"

definition processJob_rev1 :: "'w Deps_rev1 \<Rightarrow> string \<Rightarrow> Processor \<times> 'w \<Rightarrow> Processor \<times> 'w" where
  "processJob_rev1 deps jid pw =
     (case pw of (p, w) \<Rightarrow>
        if jid \<in> processingJobs p then (p, w)
        else
          (let p1 = p\<lparr>processingJobs := insert jid (processingJobs p)\<rparr>
           in case getBulkJob (storage p1) jid of
                None \<Rightarrow> abortJob_rev1 deps jid ''Job not found'' p1 w
              | Some job \<Rightarrow>
                  (let st2 = snd (updateBulkJob (storage p1) jid
                                    (noUpdates\<lparr>setStatus := Some RUNNING\<rparr>) (clock_rev1 deps w))
                   in case accessTokenOf st2 (shopDomain job) of
                        None \<Rightarrow>
                          abortJob_rev1 deps jid ''Shop access token not found''
                            (p1\<lparr>storage := st2\<rparr>) w
                      | Some tok \<Rightarrow>
                          (case batchLoop_rev1 deps jid job
                                  (createShopifyService (shopDomain job) tok) 0 (st2, w, 0) of
                             (st3, w3, n) \<Rightarrow>
                               (p1\<lparr>storage := snd (updateBulkJob st3 jid
                                                     (noUpdates\<lparr>setStatus := Some SUCCESS,
                                                                setProcessedCount := Some n,
                                                                setCompletedAt := Some (Some (clock_rev1 deps w3))\<rparr>)
                                                     (clock_rev1 deps w3)),
                                    processingJobs := processingJobs p1 - {jid}\<rparr>,
                                w3)))))"
section \<open>Concrete inputs\<close>

text \<open>A job of 25 products \<open>p1\<close> \<open>\<dots>\<close> \<open>p25\<close> for one shop, and processors that hold it.\<close>

definition sampleIds :: "string list" where
  "sampleIds = map (\<lambda>n. ''p'' @ showNat n) [1 ..< 26]"

definition sampleJob :: BulkJob where
  "sampleJob =
     \<lparr>jobId = ''job-1'', shopDomain = ''demo.myshopify.com'', productIds = sampleIds,
      targetVendor = ''Acme'', status = PENDING, errorMessage = None, processedCount = 0,
      totalCount = 25, createdAt = Some 1000, updatedAt = Some 1000, completedAt = None\<rparr>"

definition storeWith :: "BulkJob \<Rightarrow> Storage" where
  "storeWith job =
     \<lparr>bulkJobs = [jobId job \<mapsto> job],
      shopTokens = [''demo.myshopify.com'' \<mapsto> Some ''shpat_token'']\<rparr>"

definition processorWith :: "BulkJob \<Rightarrow> Processor" where
  "processorWith job = \<lparr>storage = storeWith job, processingJobs = {}\<rparr>"

text \<open>
  A remote service that accepts every update except that of product \<open>p13\<close>, which it
  answers with one user error; its state counts the requests.  The clock advances with it.
\<close>

definition demoRemote :: "(nat, ShopifyProductUpdateResponse) Remote" where
  "demoRemote =
     \<lparr>fetch = (\<lambda>w req.
                 (FetchResponse 200 ''OK'' None
                    (BodyData (if map_of (variables req) ''productId'' = Some ''p13''
                               then [(''vendor'', ''Vendor is invalid'')] else [])),
                  w + 1)),
      random = (\<lambda>w. (1 / 2, w))\<rparr>"

definition demoClock :: "nat \<Rightarrow> int" where
  "demoClock w = 2000 + 250 * int w"

definition demoDeps :: "nat Deps" where
  "demoDeps = shopifyDeps demoRemote demoClock"

text \<open>
  A remote service that answers every update with \<open>n\<close> user errors, and a job of the single
  product \<open>p1\<close>.
\<close>

definition manyErrorsRemote :: "nat \<Rightarrow> (nat, ShopifyProductUpdateResponse) Remote" where
  "manyErrorsRemote n =
     \<lparr>fetch = (\<lambda>w req.
                 (FetchResponse 200 ''OK'' None
                    (BodyData (map (\<lambda>k. (''vendor'', ''problem '' @ showNat k)) [1 ..< n + 1])),
                  w + 1)),
      random = (\<lambda>w. (1 / 2, w))\<rparr>"

definition singleJob :: BulkJob where
  "singleJob = sampleJob\<lparr>productIds := [''p1''], totalCount := 1\<rparr>"

text \<open>The error message that a call of \<open>processJob\<close> leaves on the job.\<close>

definition storedMessage :: "Processor \<times> 'w \<times> outcome \<Rightarrow> string \<Rightarrow> string option" where
  "storedMessage r jid =
     (case getBulkJob (storage (fst r)) jid of None \<Rightarrow> None | Some job \<Rightarrow> errorMessage job)"

text \<open>
  A remote service that answers the first request with status 429 and the header
  \<^verbatim>\<open>Retry-After: <h>\<close>, and every later one with success; and a request.
\<close>

definition rateLimitedOnce :: "string \<Rightarrow> (nat, ShopifyProductUpdateResponse) Remote" where
  "rateLimitedOnce h =
     \<lparr>fetch = (\<lambda>w req.
                 (if w = 0 then FetchResponse 429 ''Too Many Requests'' (Some h) (BodyInvalid [])
                  else FetchResponse 200 ''OK'' None (BodyData []),
                  w + 1)),
      random = (\<lambda>w. (1 / 2, w))\<rparr>"

definition sampleRequest :: ApiRequest where
  "sampleRequest =
     \<lparr>url = ''https://demo.myshopify.com/admin/api/2023-10/graphql.json'', token = ''shpat_token'',
      operation = ''UpdateProductVendor'',
      variables = [(''productId'', ''p1''), (''vendor'', ''Acme'')]\<rparr>"

text \<open>A remote service that answers every request with the given status and no header.\<close>

definition alwaysStatus :: "nat \<Rightarrow> string \<Rightarrow> (nat, ShopifyProductUpdateResponse) Remote" where
  "alwaysStatus s txt =
     \<lparr>fetch = (\<lambda>w req. (FetchResponse s txt None (BodyInvalid []), w + 1)),
      random = (\<lambda>w. (1 / 2, w))\<rparr>"

text \<open>
  A schedule with two runs on one job.  Run A starts on the sample job and finishes two
  batches; the job is cancelled and then retried; the retry starts run B, which finishes its
  first batch; run A, still in its loop, finishes its third batch; run B finishes its
  second.  The list holds the stored \<open>processedCount\<close> after each of these steps.
\<close>

definition overlappingRuns :: "nat list" where
  "overlappingRuns =
     (case startJob demoDeps ''job-1'' (processorWith sampleJob, 0) of
        Inl _ \<Rightarrow> []
      | Inr (pA, jobA, svcA) \<Rightarrow>
          (let zero = \<lparr>processed = 0, succeeded = 0, failed = 0, allErrors = []\<rparr>;
               a1 = batchIteration demoDeps ''job-1'' jobA svcA 0 (storage pA, 0, zero);
               a2 = batchIteration demoDeps ''job-1'' jobA svcA 10 a1;
               pC = snd (cancelJob (pA\<lparr>storage := fst a2\<rparr>) ''job-1'' 9000);
               pR = snd (retryJob pC ''job-1'' 9100)
           in case startJob demoDeps ''job-1'' (pR, fst (snd a2)) of
                Inl _ \<Rightarrow> []
              | Inr (pB, jobB, svcB) \<Rightarrow>
                  (let b1 = batchIteration demoDeps ''job-1'' jobB svcB 0
                              (storage pB, fst (snd a2), zero);
                       a3 = batchIteration demoDeps ''job-1'' jobA svcA 20
                              (fst b1, fst (snd b1), snd (snd a2));
                       b2 = batchIteration demoDeps ''job-1'' jobB svcB 10
                              (fst a3, fst (snd a3), snd (snd b1))
                   in map (\<lambda>st. storedCount st ''job-1'')
                        [fst a1, fst a2, storage pC, storage pR, fst b1, fst a3, fst b2])))"


text \<open>
  The client and the clock of \<open>demoDeps\<close> with a store whose progress write throws once,
  after the tenth request, that is, after the first batch.
\<close>

definition flakyStoreDeps :: "nat Deps" where
  "flakyStoreDeps =
     demoDeps\<lparr>progressWriteError := (\<lambda>w. if w = 10 then Some ''connection lost'' else None)\<rparr>"
section \<open>Properties of the request throttle\<close>

lemma ceilDiv1000_bounds: "1000 * (ceilDiv1000 x - 1) < x \<and> x \<le> 1000 * ceilDiv1000 x"
proof -
  define q where "q = (- x) div 1000"
  define r where "r = (- x) mod 1000"
  have e: "- x = 1000 * q + r" unfolding q_def r_def by simp
  have r: "0 \<le> r" "r < 1000" unfolding r_def by simp_all
  have c: "ceilDiv1000 x = - q" unfolding ceilDiv1000_def q_def by simp
  have x: "x = - (1000 * q) - r" using e by linarith
  have "1000 * (- q - 1) < x" unfolding x using r by (simp add: algebra_simps)
  moreover have "x \<le> 1000 * - q" unfolding x using r by (simp add: algebra_simps)
  ultimately show ?thesis unfolding c by simp
qed

lemma ceilDiv1000_pos: "0 < x \<Longrightarrow> 1 \<le> ceilDiv1000 x"
  using ceilDiv1000_bounds [of x] by linarith

lemma ceilDiv1000_ceiling: "ceilDiv1000 x = \<lceil>real_of_int x / 1000\<rceil>"
proof -
  have "\<lfloor>real_of_int (- x) / real_of_int 1000\<rfloor> = (- x) div 1000"
    by (rule floor_divide_of_int_eq)
  then show ?thesis
    unfolding ceilDiv1000_def ceiling_def by simp
qed

lemma middleware_fresh:
  assumes "requests key = None \<or> (\<exists>rl. requests key = Some rl \<and> resetTime rl \<le> now)"
  shows "middleware cfg requests key now =
           (verdict cfg \<lparr>count = 1, resetTime = now + windowMs cfg\<rparr> now,
            requests(key \<mapsto> \<lparr>count = 1, resetTime = now + windowMs cfg\<rparr>))"
  using assms by (auto simp: middleware_def verdict_def freshLog_def Let_def)

lemma middleware_live:
  assumes "requests key = Some rl" "now < resetTime rl"
  shows "middleware cfg requests key now =
           (verdict cfg (rl\<lparr>count := count rl + 1\<rparr>) now,
            requests(key \<mapsto> rl\<lparr>count := count rl + 1\<rparr>))"
  using assms by (auto simp: middleware_def verdict_def Let_def)

lemma middleware_other_key:
  "k \<noteq> key \<Longrightarrow> snd (middleware cfg requests key now) k = requests k"
  by (simp add: middleware_def Let_def)

lemma checks_Cons:
  "checks cfg requests key (now # nows) =
     (fst (middleware cfg requests key now)
        # fst (checks cfg (snd (middleware cfg requests key now)) key nows),
      snd (checks cfg (snd (middleware cfg requests key now)) key nows))"
  by (simp add: split_beta)

lemma checks_admitted:
  assumes "requests key = Some rl" "\<forall>u \<in> set nows. u < resetTime rl"
    and "count rl + int (length nows) \<le> maxRequests cfg"
  shows "list_all isAdmitted (fst (checks cfg requests key nows)) \<and>
         length (fst (checks cfg requests key nows)) = length nows \<and>
         (\<exists>rl'. snd (checks cfg requests key nows) key = Some rl' \<and>
                 count rl' = count rl + int (length nows) \<and> resetTime rl' = resetTime rl)"
  using assms
proof (induction nows arbitrary: requests rl)
  case Nil
  then show ?case by simp
next
  case (Cons now nows)
  define rl1 where "rl1 = rl\<lparr>count := count rl + 1\<rparr>"
  define rq1 where "rq1 = requests(key \<mapsto> rl1)"
  have step: "middleware cfg requests key now = (verdict cfg rl1 now, rq1)"
    using Cons.prems by (simp add: middleware_live rl1_def rq1_def)
  have adm: "isAdmitted (verdict cfg rl1 now)"
    using Cons.prems(3) by (simp add: verdict_def rl1_def)
  have p1: "rq1 key = Some rl1" by (simp add: rq1_def)
  have p2: "\<forall>u \<in> set nows. u < resetTime rl1" using Cons.prems(2) by (simp add: rl1_def)
  have p3: "count rl1 + int (length nows) \<le> maxRequests cfg"
    using Cons.prems(3) by (simp add: rl1_def)
  from Cons.IH [of rq1 rl1, OF p1 p2 p3] obtain rl' where
    ih1: "list_all isAdmitted (fst (checks cfg rq1 key nows))"
    and ih2: "length (fst (checks cfg rq1 key nows)) = length nows"
    and ih3: "snd (checks cfg rq1 key nows) key = Some rl'"
    and ih4: "count rl' = count rl1 + int (length nows)" and ih5: "resetTime rl' = resetTime rl1"
    by blast
  have c1: "count rl' = count rl + int (length (now # nows))"
    using ih4 by (simp add: rl1_def)
  have c2: "resetTime rl' = resetTime rl" using ih5 by (simp add: rl1_def)
  show ?case
    unfolding checks_Cons step fst_conv snd_conv
    using adm ih1 ih2 ih3 c1 c2 by simp
qed

lemma checks_append:
  "checks cfg requests key (xs @ ys) =
     (fst (checks cfg requests key xs) @ fst (checks cfg (snd (checks cfg requests key xs)) key ys),
      snd (checks cfg (snd (checks cfg requests key xs)) key ys))"
proof (induction xs arbitrary: requests)
  case Nil
  show ?case by simp
next
  case (Cons x xs)
  show ?case
    unfolding append_Cons checks_Cons Cons.IH fst_conv snd_conv by simp
qed


text \<open>
  Claim C3, as the code has it.  A window for \<open>key\<close> is opened by a call at time \<open>t\<close>
  (no entry for the key, or an entry whose reset time has passed) and the next \<open>N\<close> calls
  \<open>ts\<close> for the key fall before the window's reset time \<open>t + windowMs\<close>, where
  \<open>N = maxRequests\<close>.  Then of these \<open>N + 1\<close> calls the first \<open>N\<close> are admitted and the
  last is rejected.  The \<^verbatim>\<open>retryAfter\<close> of the rejection is the time remaining until the
  reset, in whole seconds, rounded up: it is at least 1 and exceeds the remaining
  milliseconds by less than a second.  When \<open>N \<ge> 1\<close>, a call at or after the reset time is
  admitted and leaves the key with count 1 in a window that starts at that call.
\<close>

theorem throttle_window:
  assumes N: "maxRequests cfg = int N"
    and W: "0 < windowMs cfg"
    and fresh: "requests key = None \<or> (\<exists>rl. requests key = Some rl \<and> resetTime rl \<le> t)"
    and len: "length ts = N"
    and within: "\<forall>u \<in> set ts. u < t + windowMs cfg"
    and later: "t + windowMs cfg \<le> v"
  shows "let ds = fst (checks cfg requests key (t # ts));
             requests' = snd (checks cfg requests key (t # ts));
             remaining = t + windowMs cfg - last (t # ts);
             ra = ceilDiv1000 remaining
         in length ds = N + 1 \<and> list_all isAdmitted (take N ds) \<and>
            ds ! N = Rejected (rejectText cfg) ra \<and>
            1 \<le> ra \<and> 1000 * (ra - 1) < remaining \<and> remaining \<le> 1000 * ra \<and>
            (1 \<le> N \<longrightarrow>
               isAdmitted (fst (middleware cfg requests' key v)) \<and>
               snd (middleware cfg requests' key v) key
                 = Some \<lparr>count = 1, resetTime = v + windowMs cfg\<rparr>)"
proof -
  define r where "r = t + windowMs cfg"
  define rl1 where "rl1 = \<lparr>count = 1, resetTime = r\<rparr>"
  define rq1 where "rq1 = requests(key \<mapsto> rl1)"
  define ds where "ds = fst (checks cfg requests key (t # ts))"
  define rq where "rq = snd (checks cfg requests key (t # ts))"
  define remaining where "remaining = r - last (t # ts)"
  have first: "middleware cfg requests key t = (verdict cfg rl1 t, rq1)"
    using middleware_fresh [where requests=requests and key=key and now=t and cfg=cfg, OF fresh] by (simp add: rl1_def rq1_def r_def)
  have ds: "ds = verdict cfg rl1 t # fst (checks cfg rq1 key ts)"
    and rq: "rq = snd (checks cfg rq1 key ts)"
    unfolding ds_def rq_def checks_Cons first by simp_all
  have rq1: "rq1 key = Some rl1" by (simp add: rq1_def)
  have main: "length ds = N + 1 \<and> list_all isAdmitted (take N ds) \<and>
      ds ! N = Rejected (rejectText cfg) (ceilDiv1000 remaining) \<and> 0 < remaining \<and>
      (\<exists>rl'. rq key = Some rl' \<and> resetTime rl' = r)"
  proof (cases ts rule: rev_cases)
    case Nil
    then have "N = 0" using len by simp
    then show ?thesis
      using Nil N W ds rq rq1 by (simp add: verdict_def rl1_def remaining_def r_def)
  next
    case (snoc ts' u)
    then have N': "N = length ts' + 1" using len by simp
    have w': "\<forall>x \<in> set ts'. x < resetTime rl1" and u: "u < r"
      using within snoc by (simp_all add: rl1_def r_def)
    have c': "count rl1 + int (length ts') \<le> maxRequests cfg"
      using N N' by (simp add: rl1_def)
    from checks_admitted [where requests=rq1 and key=key and rl=rl1 and nows=ts' and cfg=cfg, OF rq1 w' c'] obtain rl' where
      a1: "list_all isAdmitted (fst (checks cfg rq1 key ts'))"
      and a2: "length (fst (checks cfg rq1 key ts')) = length ts'"
      and a3: "snd (checks cfg rq1 key ts') key = Some rl'"
      and a4: "count rl' = count rl1 + int (length ts')" and a5: "resetTime rl' = resetTime rl1"
      by blast
    have u': "u < resetTime rl'" using u a5 by (simp add: rl1_def)
    have lastc: "checks cfg (snd (checks cfg rq1 key ts')) key [u] =
        ([verdict cfg (rl'\<lparr>count := count rl' + 1\<rparr>) u],
         (snd (checks cfg rq1 key ts'))(key \<mapsto> rl'\<lparr>count := count rl' + 1\<rparr>))"
      unfolding checks_Cons middleware_live [where requests="snd (checks cfg rq1 key ts')" and key=key and rl=rl' and now=u, OF a3 u'] by simp
    have rej: "verdict cfg (rl'\<lparr>count := count rl' + 1\<rparr>) u
                 = Rejected (rejectText cfg) (ceilDiv1000 (r - u))"
      using a4 a5 N N' by (simp add: verdict_def rl1_def)
    have adm1: "isAdmitted (verdict cfg rl1 t)"
      using N N' by (simp add: verdict_def rl1_def)
    have dsx: "ds = (verdict cfg rl1 t # fst (checks cfg rq1 key ts'))
                      @ [Rejected (rejectText cfg) (ceilDiv1000 (r - u))]"
      unfolding ds snoc checks_append lastc rej by simp
    have lenp: "length (verdict cfg rl1 t # fst (checks cfg rq1 key ts')) = N"
      using a2 N' by simp
    have rqx: "rq key = Some (rl'\<lparr>count := count rl' + 1\<rparr>)"
      unfolding rq snoc checks_append lastc by simp
    have "length ds = N + 1" unfolding dsx using lenp by simp
    moreover have "take N ds = verdict cfg rl1 t # fst (checks cfg rq1 key ts')"
      unfolding dsx using lenp by (metis append_eq_conv_conj)
    moreover have "ds ! N = Rejected (rejectText cfg) (ceilDiv1000 (r - u))"
      unfolding dsx using lenp by (metis nth_append_length)
    moreover have "remaining = r - u" unfolding remaining_def snoc by simp
    ultimately show ?thesis
      using adm1 a1 u rqx a5 by (simp add: rl1_def)
  qed
  then obtain rl' where rl': "rq key = Some rl'" "resetTime rl' = r" by blast
  have rem: "0 < remaining" using main by simp
  have fr: "rq key = None \<or> (\<exists>rl. rq key = Some rl \<and> resetTime rl \<le> v)"
    using rl' later by (simp add: r_def)
  have again: "middleware cfg rq key v =
      (verdict cfg \<lparr>count = 1, resetTime = v + windowMs cfg\<rparr> v,
       rq(key \<mapsto> \<lparr>count = 1, resetTime = v + windowMs cfg\<rparr>))"
    by (rule middleware_fresh [where requests=rq and key=key and now=v, OF fr])
  have adm: "1 \<le> N \<Longrightarrow> isAdmitted (verdict cfg \<lparr>count = 1, resetTime = v + windowMs cfg\<rparr> v)"
    using N by (simp add: verdict_def)
  show ?thesis
    unfolding Let_def ds_def [symmetric] rq_def [symmetric] r_def [symmetric]
      remaining_def [symmetric] again
    using main ceilDiv1000_pos [OF rem] ceilDiv1000_bounds [of remaining] adm by simp
qed


theorem throttle_window_witness:
  "maxRequests shopifyApiLimiter = int 2 \<and> 0 < windowMs shopifyApiLimiter \<and>
   fst (checks shopifyApiLimiter Map.empty ''shop'' [0, 100, 200])
     = [Admitted 2 1 1, Admitted 2 0 1,
        Rejected ''Shopify API rate limit exceeded. Please wait before making another request.'' 1] \<and>
   fst (middleware shopifyApiLimiter
          (snd (checks shopifyApiLimiter Map.empty ''shop'' [0, 100, 200])) ''shop'' 1000)
     = Admitted 2 1 2 \<and>
   snd (middleware shopifyApiLimiter
          (snd (checks shopifyApiLimiter Map.empty ''shop'' [0, 100, 200])) ''shop'' 1000) ''shop''
     = Some \<lparr>count = 1, resetTime = 2000\<rparr>"
  using throttle_window [of shopifyApiLimiter 2 Map.empty "''shop''" 0 "[100, 200]" 1000]
  by (simp add: shopifyApiLimiter_def middleware_def freshLog_def rejectText_def
        ceilDiv1000_def Let_def)

text \<open>
  The claim as written asks for \<^verbatim>\<open>retryAfter\<close> to equal the time remaining.  With the
  bulk-operation limiter (5 per minute), the sixth call, 500 ms into the window, has 59500 ms
  remaining and is answered with \<^verbatim>\<open>retryAfter\<close> 60.
\<close>

theorem throttle_retryAfter_counterexample:
  "fst (checks bulkOperationLimiter Map.empty ''shop'' [0, 100, 200, 300, 400, 500]) ! 5
     = Rejected ''Bulk operation rate limit exceeded. Please wait before starting another bulk operation.'' 60 \<and>
   snd (checks bulkOperationLimiter Map.empty ''shop'' [0, 100, 200, 300, 400, 500]) ''shop''
     = Some \<lparr>count = 6, resetTime = 60000\<rparr> \<and>
   (60 :: int) \<noteq> 60000 - 500"
  by (simp add: bulkOperationLimiter_def middleware_def freshLog_def rejectText_def
        ceilDiv1000_def Let_def)

section \<open>The bulk update of the client\<close>

lemma bulkUpdateItem_counts:
  assumes "bulkUpdateItem env svc ids vendor productId (r, w, tr) = (r', w', tr')"
  shows "(successCount r' = successCount r + 1 \<and> failureCount r' = failureCount r \<and>
          errors r' = errors r \<and> userErrors r' = userErrors r) \<or>
         (successCount r' = successCount r \<and> failureCount r' = failureCount r + 1 \<and>
          errors r' = errors r \<and> length (userErrors r') > length (userErrors r)) \<or>
         (successCount r' = successCount r \<and> failureCount r' = failureCount r + 1 \<and>
          length (errors r') = length (errors r) + 1 \<and> userErrors r' = userErrors r)"
  using assms
  by (auto simp: bulkUpdateItem_def split: prod.splits sum.splits if_splits)

lemma bulkUpdate_foldl_counts:
  "fst (foldl (\<lambda>acc productId. bulkUpdateItem env svc allIds vendor productId acc) (r, w, tr) ids)
     = r' \<Longrightarrow>
   successCount r' + failureCount r' = successCount r + failureCount r + length ids"
proof (induction ids arbitrary: r w tr r')
  case Nil
  then show ?case by simp
next
  case (Cons x xs)
  obtain r1 w1 tr1 where s: "bulkUpdateItem env svc allIds vendor x (r, w, tr) = (r1, w1, tr1)"
    by (cases "bulkUpdateItem env svc allIds vendor x (r, w, tr)") auto
  have "successCount r1 + failureCount r1 = successCount r + failureCount r + 1"
    using bulkUpdateItem_counts [OF s] by auto
  moreover have "successCount r' + failureCount r' = successCount r1 + failureCount r1 + length xs"
    using Cons.IH [of r1 w1 tr1 r'] Cons.prems s by simp
  ultimately show ?case by simp
qed

text \<open>
  Claim C10.  The counts that \<open>bulkUpdateVendor\<close> returns add up to the number of items it
  was given.  Each pass of its loop counts its item once: as a success, or as a failure with
  user errors recorded, or as a failure with one thrown error recorded.
\<close>

theorem bulkUpdateVendor_counts_each_item_once:
  "successCount (fst (bulkUpdateVendor env svc ids vendor w))
     + failureCount (fst (bulkUpdateVendor env svc ids vendor w)) = length ids \<and>
   (\<forall>productId r w0 tr.
      let r' = fst (bulkUpdateItem env svc ids vendor productId (r, w0, tr))
      in (successCount r' = successCount r + 1 \<and> failureCount r' = failureCount r \<and>
          errors r' = errors r \<and> userErrors r' = userErrors r) \<or>
         (successCount r' = successCount r \<and> failureCount r' = failureCount r + 1 \<and>
          errors r' = errors r \<and> length (userErrors r') > length (userErrors r)) \<or>
         (successCount r' = successCount r \<and> failureCount r' = failureCount r + 1 \<and>
          length (errors r') = length (errors r) + 1 \<and> userErrors r' = userErrors r))"
proof (intro conjI allI)
  show "successCount (fst (bulkUpdateVendor env svc ids vendor w))
          + failureCount (fst (bulkUpdateVendor env svc ids vendor w)) = length ids"
    using bulkUpdate_foldl_counts [of env svc ids vendor _ w "[]" ids, OF refl]
    by (simp add: bulkUpdateVendor_def)
next
  fix productId r w0 tr
  obtain r' w' tr' where s: "bulkUpdateItem env svc ids vendor productId (r, w0, tr) = (r', w', tr')"
    by (cases "bulkUpdateItem env svc ids vendor productId (r, w0, tr)") auto
  show "let r' = fst (bulkUpdateItem env svc ids vendor productId (r, w0, tr))
      in (successCount r' = successCount r + 1 \<and> failureCount r' = failureCount r \<and>
          errors r' = errors r \<and> userErrors r' = userErrors r) \<or>
         (successCount r' = successCount r \<and> failureCount r' = failureCount r + 1 \<and>
          errors r' = errors r \<and> length (userErrors r') > length (userErrors r)) \<or>
         (successCount r' = successCount r \<and> failureCount r' = failureCount r + 1 \<and>
          length (errors r') = length (errors r) + 1 \<and> userErrors r' = userErrors r)"
    unfolding Let_def s fst_conv by (rule bulkUpdateItem_counts [OF s])
qed

theorem bulkUpdateVendor_counts_witness:
  "fst (bulkUpdateVendor demoRemote (createShopifyService ''demo.myshopify.com'' ''shpat_token'')
          (take 3 (drop 10 sampleIds)) ''Acme'' 0)
     = \<lparr>successCount = 2, failureCount = 1, errors = [],
        userErrors = [(''p13'', ''vendor'', ''Vendor is invalid'')]\<rparr> \<and>
   2 + 1 = length (take 3 (drop 10 sampleIds))"
proof -
  have e: "fst (bulkUpdateVendor demoRemote (createShopifyService ''demo.myshopify.com'' ''shpat_token'')
          (take 3 (drop 10 sampleIds)) ''Acme'' 0)
     = \<lparr>successCount = 2, failureCount = 1, errors = [],
        userErrors = [(''p13'', ''vendor'', ''Vendor is invalid'')]\<rparr>"
    by code_simp
  from bulkUpdateVendor_counts_each_item_once
         [of demoRemote "createShopifyService ''demo.myshopify.com'' ''shpat_token''"
             "take 3 (drop 10 sampleIds)" "''Acme''" 0]
  have "successCount (fst (bulkUpdateVendor demoRemote
                             (createShopifyService ''demo.myshopify.com'' ''shpat_token'')
                             (take 3 (drop 10 sampleIds)) ''Acme'' 0))
        + failureCount (fst (bulkUpdateVendor demoRemote
                             (createShopifyService ''demo.myshopify.com'' ''shpat_token'')
                             (take 3 (drop 10 sampleIds)) ''Acme'' 0))
        = length (take 3 (drop 10 sampleIds))"
    by blast
  then show ?thesis unfolding e by simp
qed

section \<open>Create, retry and cancel\<close>

text \<open>
  A created job is stored with \<open>processedCount\<close> 0 and with \<open>totalCount\<close> the number of
  its items, whatever \<open>totalCount\<close> the caller passed.
\<close>

lemma createJob_fresh:
  assumes "createJob p i jobData now = (job, p')"
  shows "getBulkJob (storage p') i = Some job \<and> processedCount job = 0 \<and>
         productIds job = newProductIds jobData \<and> totalCount job = length (productIds job) \<and>
         errorMessage job = None \<and> completedAt job = None \<and>
         status job = (case newStatus jobData of None \<Rightarrow> PENDING | Some s \<Rightarrow> s) \<and>
         processingJobs p' = processingJobs p"
  using assms by (auto simp: createJob_def createBulkJob_def getBulkJob_def Let_def)

text \<open>
  Claim C6.  For a job that exists: when its status is \<open>RUNNING\<close>, \<open>retryJob\<close> fails with
  the error \<^verbatim>\<open>Job is currently running\<close> (the conflict error of the specification) and
  returns the processor as it was; from any other status it stores and returns the job with
  status \<open>PENDING\<close>, \<open>processedCount\<close> 0, no error message and no completion time, and
  changes nothing else but \<open>updatedAt\<close>: \<open>totalCount\<close> and \<open>productIds\<close> are as before.
\<close>

theorem retryJob_lifecycle:
  assumes "getBulkJob (storage p) jid = Some job"
  shows "(status job = RUNNING \<longrightarrow> retryJob p jid now = (Inl ''Job is currently running'', p)) \<and>
         (status job \<noteq> RUNNING \<longrightarrow>
            (let job' = job\<lparr>status := PENDING, processedCount := 0, errorMessage := None,
                            completedAt := None, updatedAt := Some now\<rparr>
             in retryJob p jid now =
                  (Inr (Some job'),
                   p\<lparr>storage := (storage p)\<lparr>bulkJobs := (bulkJobs (storage p))(jid \<mapsto> job')\<rparr>\<rparr>) \<and>
                totalCount job' = totalCount job \<and> productIds job' = productIds job))"
  using assms
  by (simp add: retryJob_def getBulkJob_def updateBulkJob_def applyUpdates_def Let_def)

theorem retryJob_lifecycle_witness:
  "retryJob (processorWith (sampleJob\<lparr>status := RUNNING, processedCount := 10\<rparr>)) ''job-1'' 5000
     = (Inl ''Job is currently running'',
        processorWith (sampleJob\<lparr>status := RUNNING, processedCount := 10\<rparr>)) \<and>
   fst (retryJob (processorWith (sampleJob\<lparr>status := FAILED, errorMessage := Some ''1 products failed'',
                                          processedCount := 25, completedAt := Some 4000\<rparr>))
          ''job-1'' 5000)
     = Inr (Some (sampleJob\<lparr>updatedAt := Some 5000\<rparr>))"
  using retryJob_lifecycle
          [of "processorWith (sampleJob\<lparr>status := RUNNING, processedCount := 10\<rparr>)" "''job-1''"
              "sampleJob\<lparr>status := RUNNING, processedCount := 10\<rparr>" 5000]
        retryJob_lifecycle
          [of "processorWith (sampleJob\<lparr>status := FAILED, errorMessage := Some ''1 products failed'',
                                         processedCount := 25, completedAt := Some 4000\<rparr>)" "''job-1''"
              "sampleJob\<lparr>status := FAILED, errorMessage := Some ''1 products failed'',
                         processedCount := 25, completedAt := Some 4000\<rparr>" 5000]
  by (simp add: getBulkJob_def processorWith_def storeWith_def sampleJob_def Let_def)

text \<open>
  Claim C7.  For a job that exists: when its status is neither \<open>PENDING\<close> nor \<open>RUNNING\<close>,
  \<open>cancelJob\<close> fails with the error \<^verbatim>\<open>Job cannot be cancelled in current status\<close> (the
  conflict error of the specification) and returns the processor as it was; otherwise it
  takes the job's id out of the guard set and stores and returns the job with status
  \<open>FAILED\<close>, the message \<^verbatim>\<open>Job cancelled by user\<close> and the current time as completion time.
\<close>

theorem cancelJob_lifecycle:
  assumes "getBulkJob (storage p) jid = Some job"
  shows "(status job \<noteq> PENDING \<and> status job \<noteq> RUNNING \<longrightarrow>
            cancelJob p jid now = (Inl ''Job cannot be cancelled in current status'', p)) \<and>
         (status job = PENDING \<or> status job = RUNNING \<longrightarrow>
            (let job' = job\<lparr>status := FAILED, errorMessage := Some ''Job cancelled by user'',
                            completedAt := Some now, updatedAt := Some now\<rparr>
             in cancelJob p jid now =
                  (Inr (Some job'),
                   p\<lparr>processingJobs := processingJobs p - {jid},
                     storage := (storage p)\<lparr>bulkJobs := (bulkJobs (storage p))(jid \<mapsto> job')\<rparr>\<rparr>)))"
  using assms
  by (auto simp add: cancelJob_def getBulkJob_def updateBulkJob_def applyUpdates_def
        noUpdates_def Let_def)

theorem cancelJob_lifecycle_witness:
  "cancelJob (processorWith (sampleJob\<lparr>status := SUCCESS, processedCount := 25\<rparr>)) ''job-1'' 5000
     = (Inl ''Job cannot be cancelled in current status'',
        processorWith (sampleJob\<lparr>status := SUCCESS, processedCount := 25\<rparr>)) \<and>
   cancelJob ((processorWith (sampleJob\<lparr>status := RUNNING, processedCount := 10\<rparr>))
                \<lparr>processingJobs := {''job-1'', ''job-2''}\<rparr>) ''job-1'' 5000
     = (Inr (Some (sampleJob\<lparr>status := FAILED, errorMessage := Some ''Job cancelled by user'',
                             processedCount := 10, updatedAt := Some 5000,
                             completedAt := Some 5000\<rparr>)),
        \<lparr>storage = storeWith (sampleJob\<lparr>status := FAILED,
                                         errorMessage := Some ''Job cancelled by user'',
                                         processedCount := 10, updatedAt := Some 5000,
                                         completedAt := Some 5000\<rparr>),
         processingJobs = {''job-2''}\<rparr>)"
  using cancelJob_lifecycle
          [of "processorWith (sampleJob\<lparr>status := SUCCESS, processedCount := 25\<rparr>)" "''job-1''"
              "sampleJob\<lparr>status := SUCCESS, processedCount := 25\<rparr>" 5000]
        cancelJob_lifecycle
          [of "(processorWith (sampleJob\<lparr>status := RUNNING, processedCount := 10\<rparr>))
                 \<lparr>processingJobs := {''job-1'', ''job-2''}\<rparr>" "''job-1''"
              "sampleJob\<lparr>status := RUNNING, processedCount := 10\<rparr>" 5000]
  by (auto simp add: getBulkJob_def processorWith_def storeWith_def sampleJob_def Let_def)

section \<open>The loop of the processor\<close>

lemma batches_step:
  "i < length xs \<Longrightarrow>
   batches batchSize (drop i xs) = take batchSize (drop i xs) # batches batchSize (drop (i + batchSize) xs)"
  by (subst batches.simps) (simp add: batchSize_def add.commute)

lemma batches_Nil [simp]: "batches n [] = []"
  by (subst batches.simps) simp

lemma batches_done: "\<not> i < length xs \<Longrightarrow> batches batchSize (drop i xs) = []"
  by (subst batches.simps) simp

lemma updateBulkJob_tokens [simp]: "shopTokens (snd (updateBulkJob st jid u now)) = shopTokens st"
  by (simp add: updateBulkJob_def split: option.splits)

lemma updateBulkJob_other [simp]:
  "k \<noteq> jid \<Longrightarrow> bulkJobs (snd (updateBulkJob st jid u now)) k = bulkJobs st k"
  by (simp add: updateBulkJob_def split: option.splits)

lemma updateBulkJob_same:
  "bulkJobs st jid = Some job \<Longrightarrow>
   bulkJobs (snd (updateBulkJob st jid u now)) jid = Some (applyUpdates u now job)"
  by (simp add: updateBulkJob_def)

text \<open>One pass of the loop, seen through the answer of the client and of the store.\<close>

lemma batchIteration_world:
  "fst (snd (batchIteration deps jid job svc i (st, w, t)))
     = snd (bulkUpdate deps w svc (take batchSize (drop i (productIds job))) (targetVendor job))"
  by (simp add: batchIteration_def Let_def split: prod.splits sum.splits option.splits)

lemma batchIteration_totals:
  defines "tot \<equiv> \<lambda>acc :: Storage \<times> 'w \<times> Totals. snd (snd acc)"
  shows "failed (tot (batchIteration deps jid job svc i (st, w, t)))
           = failed t + batchFailureCount
               (batchRun deps svc (targetVendor job) (take batchSize (drop i (productIds job))) w)"
    and "succeeded (tot (batchIteration deps jid job svc i (st, w, t)))
           = succeeded t + batchSuccessCount
               (batchRun deps svc (targetVendor job) (take batchSize (drop i (productIds job))) w)"
    and "processed (tot (batchIteration deps jid job svc i (st, w, t)))
           = processed t + batchProcessedCount
               (batchRun deps svc (targetVendor job) (take batchSize (drop i (productIds job))) w)"
  unfolding tot_def
  by (simp_all add: batchIteration_def batchRun_def Let_def split: prod.splits sum.splits option.splits)

lemma batchLoop_totals:
  "failed (snd (snd (batchLoop deps jid job svc i acc)))
     = failed (snd (snd acc))
       + sum_list (map batchFailureCount
           (runBatches deps svc (targetVendor job) (batches batchSize (drop i (productIds job)))
              (fst (snd acc)))) \<and>
   succeeded (snd (snd (batchLoop deps jid job svc i acc)))
     = succeeded (snd (snd acc))
       + sum_list (map batchSuccessCount
           (runBatches deps svc (targetVendor job) (batches batchSize (drop i (productIds job)))
              (fst (snd acc)))) \<and>
   processed (snd (snd (batchLoop deps jid job svc i acc)))
     = processed (snd (snd acc))
       + sum_list (map batchProcessedCount
           (runBatches deps svc (targetVendor job) (batches batchSize (drop i (productIds job)))
              (fst (snd acc))))"
proof (induction deps jid job svc i acc rule: batchLoop.induct)
  case (1 deps jid job svc i acc)
  obtain st w t where acc: "acc = (st, w, t)" by (cases acc) auto
  show ?case
  proof (cases "i < length (productIds job)")
    case False
    then show ?thesis
      by (subst (1 2 3) batchLoop.simps) (simp add: batches_done)
  next
    case True
    note ih = "1.IH" [OF True]
    show ?thesis
      apply (subst (1 2 3) batchLoop.simps)
      using True ih
      by (simp add: acc batches_step batchIteration_world batchIteration_totals)
  qed
qed

text \<open>When no progress write throws, each item of each batch is counted as processed once.\<close>

lemma batchProcessedCount_ge: "length (snd (snd rb)) \<le> batchProcessedCount rb"
  by (cases rb rule: batchProcessedCount.cases) simp_all


lemma runBatches_batch: "map (\<lambda>rb. snd (snd rb)) (runBatches deps svc vendor bs w) = bs"
  by (induction bs arbitrary: w) (simp_all add: batchRun_def)

lemma runBatches_lengths:
  "map (\<lambda>rb. length (snd (snd rb))) (runBatches deps svc vendor bs w) = map length bs"
  by (induction bs arbitrary: w) (simp_all add: batchRun_def)

lemma sum_length_batches: "0 < n \<Longrightarrow> sum_list (map length (batches n xs)) = length xs"
proof (induction n xs rule: batches.induct)
  case (1 n xs)
  show ?case
  proof (cases "xs = []")
    case True
    then show ?thesis by (subst batches.simps) simp
  next
    case False
    with 1 have "sum_list (map length (batches n (drop n xs))) = length (drop n xs)" by simp
    with False "1.prems" show ?thesis
      by (subst batches.simps) (simp add: min_def)
  qed
qed

lemma processed_sum_ge:
  "sum_list (map length bs)
     \<le> sum_list (map batchProcessedCount (runBatches deps svc vendor bs w))"
proof -
  have "sum_list (map (\<lambda>rb. length (snd (snd rb))) (runBatches deps svc vendor bs w))
          \<le> sum_list (map batchProcessedCount (runBatches deps svc vendor bs w))"
    by (rule sum_list_mono) (rule batchProcessedCount_ge)
  then show ?thesis by (simp only: runBatches_lengths)
qed


lemma aggregateProcessedCount_ge: "length (productIds job) \<le> aggregateProcessedCount deps job svc w"
  using processed_sum_ge [of "batches batchSize (productIds job)" deps svc "targetVendor job" w]
  by (simp add: aggregateProcessedCount_def sum_length_batches batchSize_def)



lemma batchIteration_job:
  assumes "bulkJobs st jid = Some j"
  shows "\<exists>j'. bulkJobs (fst (batchIteration deps jid job svc i (st, w, t))) jid = Some j' \<and>
              status j' = status j \<and> productIds j' = productIds j \<and> totalCount j' = totalCount j \<and>
              errorMessage j' = errorMessage j \<and> completedAt j' = completedAt j \<and>
              shopDomain j' = shopDomain j \<and> targetVendor j' = targetVendor j \<and>
              jobId j' = jobId j \<and> createdAt j' = createdAt j \<and>
              (processedCount j' = processedCount j \<or>
               processedCount j' = processed (snd (snd (batchIteration deps jid job svc i (st, w, t)))))"
  using assms
  by (auto simp: batchIteration_def Let_def updateBulkJob_def applyUpdates_def noUpdates_def
           split: prod.splits sum.splits option.splits)

lemma batchIteration_tokens [simp]:
  "shopTokens (fst (batchIteration deps jid job svc i (st, w, t))) = shopTokens st"
  by (simp add: batchIteration_def Let_def split: prod.splits sum.splits option.splits)

lemma batchIteration_other_jobs:
  "k \<noteq> jid \<Longrightarrow> bulkJobs (fst (batchIteration deps jid job svc i (st, w, t))) k = bulkJobs st k"
  by (simp add: batchIteration_def Let_def split: prod.splits sum.splits option.splits)

lemma batchIteration_processed_mono:
  "processed t \<le> processed (snd (snd (batchIteration deps jid job svc i (st, w, t))))"
  by (simp add: batchIteration_def Let_def split: prod.splits sum.splits option.splits)

lemma batchLoop_store:
  assumes "bulkJobs (fst acc) jid = Some j" "processedCount j \<le> processed (snd (snd acc))"
  shows "\<exists>j'. bulkJobs (fst (batchLoop deps jid job svc i acc)) jid = Some j' \<and> sameJob j' j \<and>
              processedCount j' \<le> processed (snd (snd (batchLoop deps jid job svc i acc))) \<and>
              sorted (processedCount j # progressLog deps jid job svc i acc @ [processedCount j'])"
  using assms
proof (induction deps jid job svc i acc arbitrary: j rule: batchLoop.induct)
  case (1 deps jid job svc i acc)
  obtain st w t where acc: "acc = (st, w, t)" by (cases acc) auto
  show ?case
  proof (cases "i < length (productIds job)")
    case False
    then show ?thesis
      using "1.prems"
      by (subst (1 2) batchLoop.simps, subst progressLog.simps) (simp add: sameJob_def)
  next
    case True
    define acc1 where "acc1 = batchIteration deps jid job svc i acc"
    from batchIteration_job [of st jid j deps job svc i w t] "1.prems"(1)
    obtain j1 where j1: "bulkJobs (fst acc1) jid = Some j1" "sameJob j1 j"
      and pc: "processedCount j1 = processedCount j \<or> processedCount j1 = processed (snd (snd acc1))"
      unfolding acc acc1_def sameJob_def by auto
    have mono: "processed t \<le> processed (snd (snd acc1))"
      unfolding acc1_def acc by (rule batchIteration_processed_mono)
    have le1: "processedCount j1 \<le> processed (snd (snd acc1))"
      using pc mono "1.prems"(2) by (auto simp: acc)
    have ge: "processedCount j \<le> processedCount j1"
      using pc mono "1.prems"(2) by (auto simp: acc)
    from "1.IH" [OF True, folded acc1_def, OF j1(1) le1]
    obtain j' where j': "bulkJobs (fst (batchLoop deps jid job svc (i + batchSize) acc1)) jid = Some j'"
      "sameJob j' j1"
      "processedCount j' \<le> processed (snd (snd (batchLoop deps jid job svc (i + batchSize) acc1)))"
      "sorted (processedCount j1 # progressLog deps jid job svc (i + batchSize) acc1 @ [processedCount j'])"
      by blast
    have unfoldL: "batchLoop deps jid job svc i acc = batchLoop deps jid job svc (i + batchSize) acc1"
      using True by (subst batchLoop.simps) (simp add: acc1_def)
    have unfoldP: "progressLog deps jid job svc i acc
                     = processedCount j1 # progressLog deps jid job svc (i + batchSize) acc1"
      using True j1(1) by (subst progressLog.simps) (simp add: acc1_def storedCount_def)
    have "sameJob j' j" using j'(2) j1(2) by (simp add: sameJob_def)
    moreover have "sorted (processedCount j # progressLog deps jid job svc i acc @ [processedCount j'])"
      unfolding unfoldP using j'(4) ge by auto
    ultimately show ?thesis
      unfolding unfoldL using j'(1,3) by blast
  qed
qed

lemma batchIteration_errors:
  "allErrors (snd (snd (batchIteration deps jid job svc i (st, w, t))))
     = allErrors t @ batchErrorTexts (i div batchSize + 1)
         (batchRun deps svc (targetVendor job) (take batchSize (drop i (productIds job))) w)"
  by (simp add: batchIteration_def batchRun_def Let_def split: prod.splits sum.splits option.splits)

lemma batchLoop_errors:
  "allErrors (snd (snd (batchLoop deps jid job svc i acc)))
     = allErrors (snd (snd acc))
       @ batchErrors (i div batchSize + 1)
           (runBatches deps svc (targetVendor job) (batches batchSize (drop i (productIds job)))
              (fst (snd acc)))"
proof (induction deps jid job svc i acc rule: batchLoop.induct)
  case (1 deps jid job svc i acc)
  obtain st w t where acc: "acc = (st, w, t)" by (cases acc) auto
  show ?case
  proof (cases "i < length (productIds job)")
    case False
    then show ?thesis
      by (subst batchLoop.simps) (simp add: batches_done)
  next
    case True
    have d: "(i + batchSize) div batchSize = Suc (i div batchSize)"
      by (simp add: batchSize_def)
    show ?thesis
      apply (subst batchLoop.simps)
      using True "1.IH" [OF True]
      by (simp add: acc d batches_step batchIteration_world batchIteration_errors)
  qed
qed

lemma processJob_run:
  fixes deps :: "'w Deps" and w :: 'w
  assumes ngd: "jid \<notin> processingJobs p"
    and job: "getBulkJob (storage p) jid = Some job"
    and tok: "accessTokenOf (storage p) (shopDomain job) = Some tok"
  defines "svc \<equiv> createShopifyService (shopDomain job) tok"
  defines "st2 \<equiv> snd (updateBulkJob (storage p) jid (noUpdates\<lparr>setStatus := Some RUNNING\<rparr>) (clock deps w))"
  defines "acc \<equiv> batchLoop deps jid job svc 0
                    (st2, w, \<lparr>processed = 0, succeeded = 0, failed = 0, allErrors = []\<rparr>)"
  shows "processJob deps jid (p, w) =
           (p\<lparr>storage := snd (updateBulkJob (fst acc) jid
                                 \<lparr>setStatus = Some (finalStatus (snd (snd acc))),
                                  setProcessedCount = Some (processed (snd (snd acc))),
                                  setErrorMessage = Some (errorDigest (snd (snd acc))),
                                  setCompletedAt = Some (Some (clock deps (fst (snd acc))))\<rparr>
                                 (clock deps (fst (snd acc)))),
              processingJobs := processingJobs p\<rparr>,
            fst (snd acc), Completed (snd (snd acc)))"
proof -
  have tok2: "accessTokenOf st2 (shopDomain job) = Some tok"
    using tok by (simp add: accessTokenOf_def st2_def)
  have g: "insert jid (processingJobs p) - {jid} = processingJobs p"
    using ngd by auto
  have start: "startJob deps jid (p, w)
                 = Inr (p\<lparr>processingJobs := insert jid (processingJobs p), storage := st2\<rparr>, job, svc)"
    using ngd job tok2
    by (simp add: startJob_def Let_def st2_def [symmetric] svc_def [symmetric])
  show ?thesis
    by (simp add: processJob_def start finishJob_def g acc_def split: prod.splits)
qed


lemma batchLoop_job:
  assumes "bulkJobs (fst acc) jid = Some j"
  shows "\<exists>j'. bulkJobs (fst (batchLoop deps jid job svc i acc)) jid = Some j' \<and> sameJob j' j"
  using assms
proof (induction deps jid job svc i acc arbitrary: j rule: batchLoop.induct)
  case (1 deps jid job svc i acc)
  obtain st w t where acc: "acc = (st, w, t)" by (cases acc) auto
  show ?case
  proof (cases "i < length (productIds job)")
    case False
    then show ?thesis
      using "1.prems" by (subst batchLoop.simps) (simp add: sameJob_def)
  next
    case True
    define acc1 where "acc1 = batchIteration deps jid job svc i acc"
    from batchIteration_job [of st jid j deps job svc i w t] "1.prems"(1)
    obtain j1 where j1: "bulkJobs (fst acc1) jid = Some j1" "sameJob j1 j"
      unfolding acc acc1_def sameJob_def by auto
    from "1.IH" [OF True, folded acc1_def, OF j1(1)]
    obtain j' where j': "bulkJobs (fst (batchLoop deps jid job svc (i + batchSize) acc1)) jid = Some j'"
      "sameJob j' j1"
      by blast
    have unfoldL: "batchLoop deps jid job svc i acc = batchLoop deps jid job svc (i + batchSize) acc1"
      using True by (subst batchLoop.simps) (simp add: acc1_def)
    have "sameJob j' j" using j'(2) j1(2) by (simp add: sameJob_def)
    then show ?thesis
      unfolding unfoldL using j'(1) by blast
  qed
qed

lemma sorted_snoc_mono:
  fixes a b :: nat
  assumes "sorted (xs @ [a])" "a \<le> b"
  shows "sorted (xs @ [b])"
  using assms by (auto simp: sorted_append intro: order_trans)

lemma processJob_summary:
  fixes deps :: "'w Deps" and w :: 'w
  assumes ngd: "jid \<notin> processingJobs p"
    and job: "getBulkJob (storage p) jid = Some job"
    and tok: "accessTokenOf (storage p) (shopDomain job) = Some tok"
  defines "svc \<equiv> createShopifyService (shopDomain job) tok"
  shows "\<exists>p' w' t job'.
           processJob deps jid (p, w) = (p', w', Completed t) \<and>
           getBulkJob (storage p') jid = Some job' \<and>
           processingJobs p' = processingJobs p \<and>
           failed t = aggregateFailureCount deps job svc w \<and>
           succeeded t = aggregateSuccessCount deps job svc w \<and>
           allErrors t = aggregateErrors deps job svc w \<and>
           processed t = aggregateProcessedCount deps job svc w \<and>
           status job' = finalStatus t \<and>
           processedCount job' = processed t \<and>
           errorMessage job' = errorDigest t \<and>
           completedAt job' = Some (clock deps w') \<and>
           productIds job' = productIds job \<and> totalCount job' = totalCount job \<and>
           (processedCount job = 0 \<longrightarrow>
              sorted (processedCount job # progressWrites deps jid (p, w) @ [processedCount job']))"
proof -
  define st2 where "st2 = snd (updateBulkJob (storage p) jid
                                 (noUpdates\<lparr>setStatus := Some RUNNING\<rparr>) (clock deps w))"
  define acc0 where "acc0 = (st2, w, \<lparr>processed = 0, succeeded = 0, failed = 0, allErrors = []\<rparr>)"
  define acc where "acc = batchLoop deps jid job svc 0 acc0"
  define t where "t = snd (snd acc)"
  define fin where "fin = \<lparr>setStatus = Some (finalStatus t),
                            setProcessedCount = Some (processed t),
                            setErrorMessage = Some (errorDigest t),
                            setCompletedAt = Some (Some (clock deps (fst (snd acc))))\<rparr>"
  define p' where "p' = p\<lparr>storage := snd (updateBulkJob (fst acc) jid fin (clock deps (fst (snd acc)))),
                          processingJobs := processingJobs p\<rparr>"
  have run: "processJob deps jid (p, w) = (p', fst (snd acc), Completed t)"
    using processJob_run [OF ngd job tok, of deps w]
    by (simp add: p'_def fin_def t_def acc_def acc0_def st2_def svc_def)
  define j2 where "j2 = applyUpdates (noUpdates\<lparr>setStatus := Some RUNNING\<rparr>) (clock deps w) job"
  have j2: "bulkJobs (fst acc0) jid = Some j2"
    using job by (simp add: acc0_def st2_def j2_def getBulkJob_def updateBulkJob_same)
  have j2pc: "processedCount j2 = processedCount job" "productIds j2 = productIds job"
    "totalCount j2 = totalCount job"
    by (simp_all add: j2_def applyUpdates_def noUpdates_def)
  have tot: "failed t = aggregateFailureCount deps job svc w"
    "succeeded t = aggregateSuccessCount deps job svc w"
    "processed t = aggregateProcessedCount deps job svc w"
    using batchLoop_totals [of deps jid job svc 0 acc0]
    by (simp_all add: t_def acc_def acc0_def aggregateFailureCount_def aggregateSuccessCount_def
                      aggregateProcessedCount_def)
  have errs: "allErrors t = aggregateErrors deps job svc w"
    using batchLoop_errors [of deps jid job svc 0 acc0]
    by (simp add: t_def acc_def acc0_def aggregateErrors_def)
  have pw: "progressWrites deps jid (p, w) = progressLog deps jid job svc 0 acc0"
  proof -
    have "accessTokenOf st2 (shopDomain job) = Some tok"
      using tok by (simp add: accessTokenOf_def st2_def)
    then show ?thesis
      using job by (simp add: progressWrites_def Let_def st2_def [symmetric] acc0_def svc_def)
  qed
  obtain j3 where j3: "bulkJobs (fst acc) jid = Some j3" "sameJob j3 j2"
    using batchLoop_job [OF j2, of deps job svc 0] unfolding acc_def by blast
  have srt: "sorted (processedCount job # progressLog deps jid job svc 0 acc0 @ [processed t])"
    if z: "processedCount job = 0"
  proof -
    have le: "processedCount j2 \<le> processed (snd (snd acc0))"
      using j2pc z by simp
    from batchLoop_store [OF j2 le, of deps job svc 0] j3(1)
    have s3: "sorted (processedCount j2 # progressLog deps jid job svc 0 acc0 @ [processedCount j3])"
      and l3: "processedCount j3 \<le> processed t"
      by (auto simp: acc_def t_def)
    have "sorted ((processedCount j2 # progressLog deps jid job svc 0 acc0) @ [processed t])"
      by (rule sorted_snoc_mono [OF _ l3]) (use s3 in simp)
    then show ?thesis using j2pc by simp
  qed
  define job' where "job' = applyUpdates fin (clock deps (fst (snd acc))) j3"
  have stored: "getBulkJob (storage p') jid = Some job'"
    using j3(1) by (simp add: p'_def getBulkJob_def updateBulkJob_same job'_def)
  have fields: "status job' = finalStatus t" "processedCount job' = processed t"
    "errorMessage job' = errorDigest t" "completedAt job' = Some (clock deps (fst (snd acc)))"
    "productIds job' = productIds job" "totalCount job' = totalCount job"
    using j3(2) j2pc by (simp_all add: job'_def applyUpdates_def fin_def sameJob_def)
  have guard: "processingJobs p' = processingJobs p" by (simp add: p'_def)
  show ?thesis
    using run stored guard tot errs fields srt pw by (intro exI [of _ p'] exI [of _ "fst (snd acc)"] exI [of _ t] exI [of _ job']) simp
qed

section \<open>A completed run of the processor\<close>

lemma sample_guard: "''job-1'' \<notin> processingJobs (processorWith sampleJob)"
  by (simp add: processorWith_def)

lemma sample_stored: "getBulkJob (storage (processorWith sampleJob)) ''job-1'' = Some sampleJob"
  by (simp add: processorWith_def storeWith_def getBulkJob_def sampleJob_def)

lemma sample_token:
  "accessTokenOf (storage (processorWith sampleJob)) (shopDomain sampleJob) = Some ''shpat_token''"
  by (simp add: processorWith_def storeWith_def accessTokenOf_def sampleJob_def)

lemma sample_failures:
  "aggregateFailureCount demoDeps sampleJob
     (createShopifyService (shopDomain sampleJob) ''shpat_token'') 0 = 1"
  by code_simp

lemma sample_successes:
  "aggregateSuccessCount demoDeps sampleJob
     (createShopifyService (shopDomain sampleJob) ''shpat_token'') 0 = 24"
  by code_simp

text \<open>
  The later revision of \<open>processJob\<close>.  A call for a job that exists, is not in the guard set
  and whose shop has an access token runs its loop to the end.  The status it then stores
  is \<open>SUCCESS\<close> exactly when the failure counts of all batches add up to zero, and \<open>FAILED\<close>
  exactly when they do not; the totals it reports on completion hold that sum and the sum of
  the batches' success counts.
\<close>

lemma processJob_status_by_failures:
  fixes deps :: "'w Deps" and w :: 'w
  assumes "jid \<notin> processingJobs p"
    and "getBulkJob (storage p) jid = Some job"
    and "accessTokenOf (storage p) (shopDomain job) = Some tok"
  shows "\<exists>p' w' t job'.
           processJob deps jid (p, w) = (p', w', Completed t) \<and>
           getBulkJob (storage p') jid = Some job' \<and>
           (status job' = SUCCESS \<longleftrightarrow>
              aggregateFailureCount deps job (createShopifyService (shopDomain job) tok) w = 0) \<and>
           (status job' = FAILED \<longleftrightarrow>
              aggregateFailureCount deps job (createShopifyService (shopDomain job) tok) w \<noteq> 0) \<and>
           failed t = aggregateFailureCount deps job (createShopifyService (shopDomain job) tok) w \<and>
           succeeded t = aggregateSuccessCount deps job (createShopifyService (shopDomain job) tok) w"
proof -
  from processJob_summary [OF assms, of deps w]
  obtain p' w' t job' where
    "processJob deps jid (p, w) = (p', w', Completed t)"
    "getBulkJob (storage p') jid = Some job'"
    "failed t = aggregateFailureCount deps job (createShopifyService (shopDomain job) tok) w"
    "succeeded t = aggregateSuccessCount deps job (createShopifyService (shopDomain job) tok) w"
    "status job' = finalStatus t"
    by blast
  then show ?thesis
    by (auto simp: finalStatus_def)
qed

text \<open>
  The earlier revision of \<open>processJob\<close> keeps no failure count.  Whatever the client does, a
  call for a job that exists, is not in the guard set and whose shop has an access token
  ends with status \<open>SUCCESS\<close> stored.
\<close>

lemma batchIteration_rev1_job:
  assumes "bulkJobs st jid = Some j"
  shows "\<exists>j'. bulkJobs (fst (batchIteration_rev1 deps jid job svc i (st, w, n))) jid = Some j'"
  using assms
  by (auto simp: batchIteration_rev1_def Let_def updateBulkJob_def split: prod.splits sum.splits option.splits)

lemma batchLoop_rev1_job:
  assumes "bulkJobs (fst acc) jid = Some j"
  shows "\<exists>j'. bulkJobs (fst (batchLoop_rev1 deps jid job svc i acc)) jid = Some j'"
  using assms
proof (induction deps jid job svc i acc arbitrary: j rule: batchLoop_rev1.induct)
  case (1 deps jid job svc i acc)
  obtain st w n where acc: "acc = (st, w, n)" by (cases acc) auto
  show ?case
  proof (cases "i < length (productIds job)")
    case False
    then show ?thesis
      using "1.prems" by (subst batchLoop_rev1.simps) simp
  next
    case True
    from batchIteration_rev1_job [of st jid j deps job svc i w n] "1.prems"
    obtain j1 where "bulkJobs (fst (batchIteration_rev1 deps jid job svc i acc)) jid = Some j1"
      unfolding acc by auto
    from "1.IH" [OF True this] show ?thesis
      using True by (subst batchLoop_rev1.simps) simp
  qed
qed

lemma processJob_rev1_always_success:
  fixes deps :: "'w Deps_rev1" and w :: 'w
  assumes ngd: "jid \<notin> processingJobs p"
    and job: "getBulkJob (storage p) jid = Some job"
    and tok: "accessTokenOf (storage p) (shopDomain job) = Some tok"
  shows "map_option status (getBulkJob (storage (fst (processJob_rev1 deps jid (p, w)))) jid)
           = Some SUCCESS"
proof -
  define st2 where "st2 = snd (updateBulkJob (storage p) jid
                                 (noUpdates\<lparr>setStatus := Some RUNNING\<rparr>) (clock_rev1 deps w))"
  define acc where "acc = batchLoop_rev1 deps jid job (createShopifyService (shopDomain job) tok) 0
                            (st2, w, 0)"
  obtain st3 w3 n where acc3: "acc = (st3, w3, n)" by (cases acc) auto
  have tok2: "accessTokenOf st2 (shopDomain job) = Some tok"
    using tok by (simp add: accessTokenOf_def st2_def)
  have "bulkJobs st2 jid \<noteq> None"
    using job by (simp add: st2_def getBulkJob_def updateBulkJob_def)
  then obtain j2 where "bulkJobs (fst (st2, w, 0 :: nat)) jid = Some j2" by auto
  from batchLoop_rev1_job [OF this, of deps job "createShopifyService (shopDomain job) tok" 0]
  obtain j3 where j3: "bulkJobs st3 jid = Some j3"
    using acc3 unfolding acc_def by auto
  have "processJob_rev1 deps jid (p, w)
          = (p\<lparr>processingJobs := insert jid (processingJobs p),
               storage := snd (updateBulkJob st3 jid
                                 (noUpdates\<lparr>setStatus := Some SUCCESS,
                                            setProcessedCount := Some n,
                                            setCompletedAt := Some (Some (clock_rev1 deps w3))\<rparr>)
                                 (clock_rev1 deps w3)),
               processingJobs := insert jid (processingJobs p) - {jid}\<rparr>, w3)"
    using ngd job tok2 acc3
    by (simp add: processJob_rev1_def Let_def st2_def [symmetric] acc_def [symmetric])
  then show ?thesis
    using j3 by (simp add: getBulkJob_def updateBulkJob_def applyUpdates_def noUpdates_def)
qed

text \<open>
  Claim C1, on the revision of \<^verbatim>\<open>src/server/services/bulk-jobs.ts\<close>.  The sample job of 25
  items is processed against a remote service that answers every request with status 500.
  The earlier revision sends the 25 items as one batch, the call throws, and the job is
  stored with status \<open>SUCCESS\<close>, \<open>processedCount\<close> 25 and no error message although no item
  was updated; so it is when the one mutation is answered with a user error.  The later
  revision, on the same job and the same service, counts 25 failures and no success and
  stores status \<open>FAILED\<close>.
\<close>

theorem processJob_rev1_success_despite_failures:
  "getBulkJob (storage (fst (processJob_rev1
       (shopifyDeps_rev1 (alwaysStatus 500 ''Internal Server Error'') demoClock)
       ''job-1'' (processorWith sampleJob, 0)))) ''job-1''
     = Some (sampleJob\<lparr>status := SUCCESS, processedCount := 25,
                       updatedAt := Some 2250, completedAt := Some 2250\<rparr>) \<and>
   fst (bulkUpdateVendor_rev1 (alwaysStatus 500 ''Internal Server Error'')
          (createShopifyService ''demo.myshopify.com'' ''shpat_token'') sampleIds ''Acme'' 0)
     = Inl (plainError ''Shopify API error: 500 Internal Server Error'') \<and>
   getBulkJob (storage (fst (processJob_rev1
       (shopifyDeps_rev1 (manyErrorsRemote 1) demoClock)
       ''job-1'' (processorWith sampleJob, 0)))) ''job-1''
     = Some (sampleJob\<lparr>status := SUCCESS, processedCount := 25,
                       updatedAt := Some 2250, completedAt := Some 2250\<rparr>) \<and>
   fst (bulkUpdateVendor_rev1 (manyErrorsRemote 1)
          (createShopifyService ''demo.myshopify.com'' ''shpat_token'') sampleIds ''Acme'' 0)
     = Inr [(''vendor'', ''problem 1'')] \<and>
   map_option status
     (getBulkJob (storage (fst (processJob
        (shopifyDeps (alwaysStatus 500 ''Internal Server Error'') demoClock)
        ''job-1'' (processorWith sampleJob, 0)))) ''job-1'')
     = Some FAILED \<and>
   (case snd (snd (processJob
        (shopifyDeps (alwaysStatus 500 ''Internal Server Error'') demoClock)
        ''job-1'' (processorWith sampleJob, 0))) of
      Completed t \<Rightarrow> failed t = 25 \<and> succeeded t = 0 | _ \<Rightarrow> False)"
proof -
  have "getBulkJob (storage (fst (processJob_rev1
       (shopifyDeps_rev1 (alwaysStatus 500 ''Internal Server Error'') demoClock)
       ''job-1'' (processorWith sampleJob, 0)))) ''job-1''
     = Some (sampleJob\<lparr>status := SUCCESS, processedCount := 25,
                       updatedAt := Some 2250, completedAt := Some 2250\<rparr>)"
    by code_simp
  moreover have "fst (bulkUpdateVendor_rev1 (alwaysStatus 500 ''Internal Server Error'')
          (createShopifyService ''demo.myshopify.com'' ''shpat_token'') sampleIds ''Acme'' 0)
     = Inl (plainError ''Shopify API error: 500 Internal Server Error'')"
    by code_simp
  moreover have "getBulkJob (storage (fst (processJob_rev1
       (shopifyDeps_rev1 (manyErrorsRemote 1) demoClock)
       ''job-1'' (processorWith sampleJob, 0)))) ''job-1''
     = Some (sampleJob\<lparr>status := SUCCESS, processedCount := 25,
                       updatedAt := Some 2250, completedAt := Some 2250\<rparr>)"
    by code_simp
  moreover have "fst (bulkUpdateVendor_rev1 (manyErrorsRemote 1)
          (createShopifyService ''demo.myshopify.com'' ''shpat_token'') sampleIds ''Acme'' 0)
     = Inr [(''vendor'', ''problem 1'')]"
    by code_simp
  moreover have "map_option status
     (getBulkJob (storage (fst (processJob
        (shopifyDeps (alwaysStatus 500 ''Internal Server Error'') demoClock)
        ''job-1'' (processorWith sampleJob, 0)))) ''job-1'')
     = Some FAILED"
    by code_simp
  moreover have "(case snd (snd (processJob
        (shopifyDeps (alwaysStatus 500 ''Internal Server Error'') demoClock)
        ''job-1'' (processorWith sampleJob, 0))) of
      Completed t \<Rightarrow> failed t = 25 \<and> succeeded t = 0 | _ \<Rightarrow> False)"
    by code_simp
  ultimately show ?thesis by (intro conjI)
qed

lemma accessTokenOf_update [simp]:
  "accessTokenOf (snd (updateBulkJob st jid u now)) d = accessTokenOf st d"
  by (simp add: accessTokenOf_def)



lemma shopifyDeps_progressWriteError [simp]: "progressWriteError (shopifyDeps env clk) w = None"
  by (simp add: shopifyDeps_def)





lemma sample_result:
  "getBulkJob (storage (fst (processJob demoDeps ''job-1'' (processorWith sampleJob, 0)))) ''job-1''
     = Some (sampleJob\<lparr>status := FAILED,
               errorMessage := Some ''1 products failed. Errors: Product p13: Vendor is invalid (field: vendor)'',
               processedCount := 25, updatedAt := Some 8250, completedAt := Some 8250\<rparr>)"
  by code_simp



text \<open>
  The property above is about one run at a time.  \<open>cancelJob\<close> takes the job out of the guard
  set while its run is still in the loop, and the loop reads neither the guard set nor the
  status, so a retry can start a second run beside the first.  In the schedule
  \<open>overlappingRuns\<close> the stored count then falls from 25 to 20 by a progress write.
\<close>

lemma overlapping_runs_progress: "overlappingRuns = [10, 20, 20, 0, 10, 25, 20]"
  by code_simp

text \<open>
  The equality of the stored count and \<open>totalCount\<close> depends on the progress writes.  The
  write stands inside the \<^verbatim>\<open>try\<close> block of its batch, after the counts of the batch have been
  added, and the \<^verbatim>\<open>catch\<close> block counts the batch again: when the write after the first batch
  of the sample job throws, the run ends with \<open>processedCount\<close> 35 for 25 items and with 11
  failures, 10 of them items that were updated.
\<close>

lemma progress_write_failure_counts_twice:
  "progressWrites flakyStoreDeps ''job-1'' (processorWith sampleJob, 0) = [0, 30, 35] \<and>
   map_option processedCount
     (getBulkJob (storage (fst (processJob flakyStoreDeps ''job-1'' (processorWith sampleJob, 0)))) ''job-1'')
     = Some 35 \<and>
   map_option totalCount
     (getBulkJob (storage (fst (processJob flakyStoreDeps ''job-1'' (processorWith sampleJob, 0)))) ''job-1'')
     = Some 25 \<and>
   snd (snd (processJob flakyStoreDeps ''job-1'' (processorWith sampleJob, 0)))
     = Completed \<lparr>processed = 35, succeeded = 24, failed = 11,
                  allErrors = [''Batch 1: connection lost'',
                               ''Product p13: Vendor is invalid (field: vendor)'']\<rparr>"
  by code_simp

text \<open>
  Claim C8, as the code has it.  After a run of the loop, the stored error message is empty
  when no batch contributed an error text; otherwise it is the total failure count, the
  first five error texts at most, joined by \<^verbatim>\<open>; \<close>, and the mark \<^verbatim>\<open>...\<close> when there were
  more than five.  The message holds no count of the texts left out.
\<close>

theorem error_digest_bounded:
  fixes deps :: "'w Deps" and w :: 'w
  assumes "jid \<notin> processingJobs p"
    and "getBulkJob (storage p) jid = Some job"
    and "accessTokenOf (storage p) (shopDomain job) = Some tok"
  shows "\<exists>p' w' t job'.
           processJob deps jid (p, w) = (p', w', Completed t) \<and>
           getBulkJob (storage p') jid = Some job' \<and>
           (let es = aggregateErrors deps job (createShopifyService (shopDomain job) tok) w;
                n = aggregateFailureCount deps job (createShopifyService (shopDomain job) tok) w
            in errorMessage job' =
                 (if es = [] then None
                  else Some (showNat n @ '' products failed. Errors: ''
                               @ joinWith ''; '' (take 5 es)
                               @ (if 5 < length es then ''...'' else []))) \<and>
               length (take 5 es) = min 5 (length es))"
proof -
  from processJob_summary [OF assms, of deps w]
  obtain p' w' t job' where
    "processJob deps jid (p, w) = (p', w', Completed t)"
    "getBulkJob (storage p') jid = Some job'"
    "failed t = aggregateFailureCount deps job (createShopifyService (shopDomain job) tok) w"
    "allErrors t = aggregateErrors deps job (createShopifyService (shopDomain job) tok) w"
    "errorMessage job' = errorDigest t"
    by blast
  then show ?thesis
    by (auto simp: errorDigest_def Let_def)
qed

lemma sample_errors:
  "aggregateErrors demoDeps sampleJob (createShopifyService (shopDomain sampleJob) ''shpat_token'') 0
     = [''Product p13: Vendor is invalid (field: vendor)'']"
  by code_simp

theorem error_digest_bounded_witness:
  "''job-1'' \<notin> processingJobs (processorWith sampleJob) \<and>
   getBulkJob (storage (processorWith sampleJob)) ''job-1'' = Some sampleJob \<and>
   accessTokenOf (storage (processorWith sampleJob)) (shopDomain sampleJob) = Some ''shpat_token'' \<and>
   storedMessage (processJob demoDeps ''job-1'' (processorWith sampleJob, 0)) ''job-1''
     = Some ''1 products failed. Errors: Product p13: Vendor is invalid (field: vendor)''"
proof -
  from error_digest_bounded [OF sample_guard sample_stored sample_token, of demoDeps 0]
  obtain p' w' t job' where
    r: "processJob demoDeps ''job-1'' (processorWith sampleJob, 0) = (p', w', Completed t)"
    and j: "getBulkJob (storage p') ''job-1'' = Some job'"
    and m: "errorMessage job' =
              Some (showNat 1 @ '' products failed. Errors: ''
                      @ joinWith ''; '' (take 5 [''Product p13: Vendor is invalid (field: vendor)''])
                      @ (if 5 < length [''Product p13: Vendor is invalid (field: vendor)''] then ''...'' else []))"
    unfolding sample_errors sample_failures Let_def by auto
  have "showNat 1 = ''1''" by code_simp
  then show ?thesis
    using sample_guard sample_stored sample_token r j m by (simp add: storedMessage_def)
qed

text \<open>
  The claim as written has the digest carry the number of suppressed errors.  One product
  answered with six user errors and one answered with seven leave the same message, with one
  and with two texts left out.
\<close>

theorem suppressed_count_counterexample:
  "storedMessage (processJob (shopifyDeps (manyErrorsRemote 6) demoClock) ''job-1''
                    (processorWith singleJob, 0)) ''job-1''
     = Some ''1 products failed. Errors: Product p1: problem 1 (field: vendor); Product p1: problem 2 (field: vendor); Product p1: problem 3 (field: vendor); Product p1: problem 4 (field: vendor); Product p1: problem 5 (field: vendor)...'' \<and>
   storedMessage (processJob (shopifyDeps (manyErrorsRemote 7) demoClock) ''job-1''
                    (processorWith singleJob, 0)) ''job-1''
     = storedMessage (processJob (shopifyDeps (manyErrorsRemote 6) demoClock) ''job-1''
                        (processorWith singleJob, 0)) ''job-1'' \<and>
   length (aggregateErrors (shopifyDeps (manyErrorsRemote 6) demoClock) singleJob
             (createShopifyService (shopDomain singleJob) ''shpat_token'') 0) - 5 = 1 \<and>
   length (aggregateErrors (shopifyDeps (manyErrorsRemote 7) demoClock) singleJob
             (createShopifyService (shopDomain singleJob) ''shpat_token'') 0) - 5 = 2"
  by code_simp

section \<open>The retry wrapper of the client\<close>

lemma of_char_digitChar: "d < 10 \<Longrightarrow> (of_char (digitChar d) :: nat) = 48 + d"
  by (simp add: digitChar_def)

lemma isDigit_digitChar: "d < 10 \<Longrightarrow> isDigit (digitChar d)"
  by (simp add: isDigit_def of_char_digitChar)

lemma digitVal_digitChar: "d < 10 \<Longrightarrow> digitVal (digitChar d) = d"
  by (simp add: digitVal_def of_char_digitChar)

lemma showNat_digits: "list_all isDigit (showNat n)"
proof (induction n rule: showNat.induct)
  case (1 n)
  show ?case
  proof (cases "n < 10")
    case True
    then show ?thesis by (subst showNat.simps) (simp add: isDigit_digitChar)
  next
    case False
    then show ?thesis
      using "1.IH" by (subst showNat.simps) (simp add: isDigit_digitChar)
  qed
qed

lemma showNat_nonempty: "showNat n \<noteq> []"
  by (subst showNat.simps) simp

lemma parseDigits_snoc: "parseDigits (ds @ [c]) = 10 * parseDigits ds + digitVal c"
  by (simp add: parseDigits_def)

lemma parseDigits_showNat: "parseDigits (showNat n) = n"
proof (induction n rule: showNat.induct)
  case (1 n)
  show ?case
  proof (cases "n < 10")
    case True
    then show ?thesis
      by (subst showNat.simps) (simp add: parseDigits_def digitVal_digitChar)
  next
    case False
    then show ?thesis
      using "1.IH" by (subst showNat.simps) (simp add: parseDigits_snoc digitVal_digitChar)
  qed
qed

lemma takeWhile_showNat: "takeWhile isDigit (showNat n @ CHR '' '' # rest) = showNat n"
proof -
  have "\<not> isDigit CHR '' ''" by (simp add: isDigit_def)
  moreover have "\<forall>c \<in> set (showNat n). isDigit c"
    using showNat_digits [of n] by (simp add: list_all_iff)
  ultimately show ?thesis by (simp add: takeWhile_append2)
qed

lemma matchStatus_httpError:
  "matchStatus (errorText (httpError s stxt h)) = Some (showNat s)"
  by (simp add: httpError_def startsWith_def takeWhile_showNat showNat_nonempty)

lemma includes_httpError:
  "includesStr (errorText (httpError s stxt h)) ''Shopify API error:''"
  by (simp add: httpError_def startsWith_def)

lemma nonRetryable_httpError:
  "nonRetryable (httpError s stxt h) \<longleftrightarrow> 400 \<le> s \<and> s < 500 \<and> s \<noteq> 429"
  by (simp add: nonRetryable_def matchStatus_httpError includes_httpError parseDigits_showNat Let_def)

lemma makeGraphQLRequest_not_ok:
  "fetch env w req = (FetchResponse s stxt h b, w1) \<Longrightarrow> \<not> responseOk s \<Longrightarrow>
   makeGraphQLRequest env req w = (Inl (httpError s stxt h), w1)"
  by (simp add: makeGraphQLRequest_def)

lemma retryLoop_success:
  "attempt \<le> maxRetries \<Longrightarrow> makeGraphQLRequest env req w = (Inr d, w1) \<Longrightarrow>
   retryLoop env req maxRetries attempt lastError w = (Inr d, w1, [Dispatch req])"
  by (subst retryLoop.simps) simp

lemma retryLoop_fatal:
  "attempt \<le> maxRetries \<Longrightarrow> makeGraphQLRequest env req w = (Inl e, w1) \<Longrightarrow> nonRetryable e \<Longrightarrow>
   retryLoop env req maxRetries attempt lastError w = (Inl e, w1, [Dispatch req])"
  by (subst retryLoop.simps) simp

lemma retryLoop_last:
  "makeGraphQLRequest env req w = (Inl e, w1) \<Longrightarrow>
   retryLoop env req maxRetries maxRetries lastError w = (Inl e, w1, [Dispatch req])"
  by (subst retryLoop.simps) simp

lemma retryLoop_retry:
  "attempt < maxRetries \<Longrightarrow> makeGraphQLRequest env req w = (Inl e, w1) \<Longrightarrow> \<not> nonRetryable e \<Longrightarrow>
   retryLoop env req maxRetries attempt lastError w =
     (case retryLoop env req maxRetries (attempt + 1) (Some e) (snd (retryDelay env attempt e w1)) of
        (r, w3, tr) \<Rightarrow> (r, w3, Dispatch req # Sleep (fst (retryDelay env attempt e w1)) # tr))"
  by (subst retryLoop.simps) simp

lemma retryDelay_header:
  "retryAfter e = Some (Num v) \<Longrightarrow> v \<noteq> 0 \<Longrightarrow> retryDelay env attempt e w = (real_of_int v, w)"
  by (simp add: retryDelay_def)

lemma retryDelay_backoff:
  "retryAfter e = None \<or> retryAfter e = Some NaN \<or> retryAfter e = Some (Num 0) \<Longrightarrow>
   retryDelay env attempt e w = (backoffDelay attempt (fst (random env w)), snd (random env w))"
  by (auto simp: retryDelay_def split_beta)

lemma parseInt10_Nil: "parseInt10 [] = NaN"
  by (simp add: parseInt10_def)

lemma retryAfter_httpError_429:
  "parseInt10 h = Num T \<Longrightarrow> retryAfter (httpError 429 stxt (Some h)) = Some (Num (T * 1000))"
  using parseInt10_Nil by (auto simp: httpError_def)

lemma retryLoop_dispatches:
  "attempt \<le> maxRetries \<Longrightarrow>
   1 \<le> dispatches (snd (snd (retryLoop env req maxRetries attempt lastError w))) \<and>
   dispatches (snd (snd (retryLoop env req maxRetries attempt lastError w))) \<le> maxRetries + 1 - attempt \<and>
   pacedAttempts (snd (snd (retryLoop env req maxRetries attempt lastError w))) \<and>
   \<not> list_ex isThrottleCheck (snd (snd (retryLoop env req maxRetries attempt lastError w)))"
proof (induction env req maxRetries attempt lastError w rule: retryLoop.induct)
  case (1 env req maxRetries attempt lastError w)
  obtain res w1 where m: "makeGraphQLRequest env req w = (res, w1)"
    by (cases "makeGraphQLRequest env req w") auto
  show ?case
  proof (cases res)
    case (Inr d)
    then show ?thesis
      using "1.prems" m by (simp add: retryLoop_success dispatches_def)
  next
    case (Inl e)
    show ?thesis
    proof (cases "nonRetryable e \<or> attempt = maxRetries")
      case True
      then show ?thesis
        using "1.prems" m Inl
        by (auto simp: retryLoop_fatal retryLoop_last dispatches_def)
    next
      case False
      then have lt: "attempt < maxRetries" and nr: "\<not> nonRetryable e"
        using "1.prems" by auto
      have le: "attempt + 1 \<le> maxRetries" using lt by simp
      note ih = "1.IH" [OF "1.prems" m [symmetric] Inl nr _ le]
      obtain r w3 tr where rest:
        "retryLoop env req maxRetries (attempt + 1) (Some e) (snd (retryDelay env attempt e w1)) = (r, w3, tr)"
        by (cases "retryLoop env req maxRetries (attempt + 1) (Some e) (snd (retryDelay env attempt e w1))") auto
      have ih': "1 \<le> dispatches tr \<and> dispatches tr \<le> maxRetries + 1 - (attempt + 1) \<and>
                 pacedAttempts tr \<and> \<not> list_ex isThrottleCheck tr"
        using ih lt rest by simp
      show ?thesis
        unfolding retryLoop_retry [OF lt m [unfolded Inl] nr] rest
        using ih' lt by (auto simp: dispatches_def)
    qed
  qed
qed

lemma backoffDelay_facts:
  "backoffDelay 1 0 = 1000"
  "1 \<le> attempt \<Longrightarrow> backoffDelay (attempt + 1) 0 = 2 * backoffDelay attempt 0"
  "0 \<le> u \<Longrightarrow> u < 1 \<Longrightarrow>
     backoffDelay attempt 0 \<le> backoffDelay attempt u \<and>
     backoffDelay attempt u < backoffDelay attempt 0 + 500"
proof -
  show "backoffDelay 1 0 = 1000" by (simp add: backoffDelay_def)
  show "backoffDelay (attempt + 1) 0 = 2 * backoffDelay attempt 0" if "1 \<le> attempt"
  proof -
    have "0 < attempt" using that by simp
    then obtain k where "attempt = Suc k" by (auto simp: gr0_conv_Suc)
    then show ?thesis by (simp add: backoffDelay_def)
  qed
  show "backoffDelay attempt 0 \<le> backoffDelay attempt u \<and>
        backoffDelay attempt u < backoffDelay attempt 0 + 500" if "0 \<le> u" "u < 1"
    using that by (simp add: backoffDelay_def)
qed

lemma nonRetryable_plain:
  "\<not> includesStr m ''Shopify API error:'' \<Longrightarrow> \<not> nonRetryable (plainError m)"
  by (simp add: nonRetryable_def plainError_def)

text \<open>
  Claim C4, as the code has it.  The wrapper is the loop with three attempts, started at
  attempt 1.  At any attempt of the loop:
  \<^item> a response with a 4xx status other than 429 ends the call at once with that error,
    after this one request;
  \<^item> a 429 response whose \<^verbatim>\<open>Retry-After\<close> header reads as a non-zero integer \<open>T\<close>
    (seconds), when attempts remain, is followed by a sleep of exactly \<open>T * 1000\<close>
    milliseconds and then the next attempt;
  \<^item> any other failure that is retried (no \<^verbatim>\<open>retryAfter\<close>, or one that is \<^verbatim>\<open>NaN\<close> or 0),
    when attempts remain, is followed by a sleep of \<open>2 ^ (attempt - 1) * 1000 + u * 500\<close>
    milliseconds, \<open>u\<close> being the next random number: the base is 1000 at attempt 1 and
    doubles with each attempt, and for \<open>0 \<le> u < 1\<close> the jitter is below 500;
  \<^item> responses with status 429 or at least 500 are retried, and so is every failure whose
    message does not contain \<^verbatim>\<open>Shopify API error:\<close>;
  \<^item> a failure at the last attempt ends the call with that error;
  \<^item> from attempt \<open>attempt\<close> on, at least one and at most \<open>maxRetries + 1 - attempt\<close>
    requests are sent.
\<close>

theorem retry_policy:
  fixes env :: "('w, 'd) Remote"
  assumes a1: "1 \<le> attempt" and a2: "attempt \<le> maxRetries"
  shows
    "makeGraphQLRequestWithRetry env req w = retryLoop env req 3 1 None w \<and>
     (\<forall>s stxt h b w1.
        fetch env w req = (FetchResponse s stxt h b, w1) \<and> 400 \<le> s \<and> s < 500 \<and> s \<noteq> 429 \<longrightarrow>
        retryLoop env req maxRetries attempt lastError w
          = (Inl (httpError s stxt h), w1, [Dispatch req])) \<and>
     (\<forall>stxt h b w1 T.
        fetch env w req = (FetchResponse 429 stxt (Some h) b, w1) \<and> parseInt10 h = Num T \<and>
        T \<noteq> 0 \<and> attempt < maxRetries \<longrightarrow>
        retryLoop env req maxRetries attempt lastError w
          = (case retryLoop env req maxRetries (attempt + 1)
                    (Some (httpError 429 stxt (Some h))) w1 of
               (r, w3, tr) \<Rightarrow> (r, w3, Dispatch req # Sleep (real_of_int (T * 1000)) # tr))) \<and>
     (\<forall>e w1.
        makeGraphQLRequest env req w = (Inl e, w1) \<and> \<not> nonRetryable e \<and>
        (retryAfter e = None \<or> retryAfter e = Some NaN \<or> retryAfter e = Some (Num 0)) \<and>
        attempt < maxRetries \<longrightarrow>
        retryLoop env req maxRetries attempt lastError w
          = (case retryLoop env req maxRetries (attempt + 1) (Some e) (snd (random env w1)) of
               (r, w3, tr) \<Rightarrow>
                 (r, w3, Dispatch req # Sleep (backoffDelay attempt (fst (random env w1))) # tr))) \<and>
     backoffDelay 1 0 = 1000 \<and>
     backoffDelay (attempt + 1) 0 = 2 * backoffDelay attempt 0 \<and>
     (\<forall>u. 0 \<le> u \<and> u < 1 \<longrightarrow>
        backoffDelay attempt 0 \<le> backoffDelay attempt u \<and>
        backoffDelay attempt u < backoffDelay attempt 0 + 500) \<and>
     (\<forall>s stxt h. 500 \<le> s \<or> s = 429 \<longrightarrow> \<not> nonRetryable (httpError s stxt h)) \<and>
     (\<forall>m. \<not> includesStr m ''Shopify API error:'' \<longrightarrow> \<not> nonRetryable (plainError m)) \<and>
     (\<forall>e w1.
        makeGraphQLRequest env req w = (Inl e, w1) \<and> attempt = maxRetries \<longrightarrow>
        retryLoop env req maxRetries attempt lastError w = (Inl e, w1, [Dispatch req])) \<and>
     1 \<le> dispatches (snd (snd (retryLoop env req maxRetries attempt lastError w))) \<and>
     dispatches (snd (snd (retryLoop env req maxRetries attempt lastError w)))
       \<le> maxRetries + 1 - attempt"
proof (intro conjI allI impI)
  show "makeGraphQLRequestWithRetry env req w = retryLoop env req 3 1 None w"
    by (simp add: makeGraphQLRequestWithRetry_def)
next
  fix s stxt h b w1
  assume h: "fetch env w req = (FetchResponse s stxt h b, w1) \<and> 400 \<le> s \<and> s < 500 \<and> s \<noteq> 429"
  then have "\<not> responseOk s" by (simp add: responseOk_def)
  then have m: "makeGraphQLRequest env req w = (Inl (httpError s stxt h), w1)"
    using h by (simp add: makeGraphQLRequest_not_ok)
  have "nonRetryable (httpError s stxt h)" using h by (simp add: nonRetryable_httpError)
  then show "retryLoop env req maxRetries attempt lastError w
               = (Inl (httpError s stxt h), w1, [Dispatch req])"
    using m a2 by (simp add: retryLoop_fatal)
next
  fix stxt h b w1 T
  assume h: "fetch env w req = (FetchResponse 429 stxt (Some h) b, w1) \<and> parseInt10 h = Num T \<and>
        T \<noteq> 0 \<and> attempt < maxRetries"
  have "\<not> responseOk 429" by (simp add: responseOk_def)
  then have m: "makeGraphQLRequest env req w = (Inl (httpError 429 stxt (Some h)), w1)"
    using h by (simp add: makeGraphQLRequest_not_ok)
  have nr: "\<not> nonRetryable (httpError 429 stxt (Some h))" by (simp add: nonRetryable_httpError)
  have ra: "retryAfter (httpError 429 stxt (Some h)) = Some (Num (T * 1000))"
    using h by (simp add: retryAfter_httpError_429)
  have d: "retryDelay env attempt (httpError 429 stxt (Some h)) w1 = (real_of_int (T * 1000), w1)"
    using ra h by (simp add: retryDelay_header)
  show "retryLoop env req maxRetries attempt lastError w
          = (case retryLoop env req maxRetries (attempt + 1)
                    (Some (httpError 429 stxt (Some h))) w1 of
               (r, w3, tr) \<Rightarrow> (r, w3, Dispatch req # Sleep (real_of_int (T * 1000)) # tr))"
    using retryLoop_retry [OF _ m nr, of attempt maxRetries lastError] h unfolding d by simp
next
  fix e w1
  assume h: "makeGraphQLRequest env req w = (Inl e, w1) \<and> \<not> nonRetryable e \<and>
        (retryAfter e = None \<or> retryAfter e = Some NaN \<or> retryAfter e = Some (Num 0)) \<and>
        attempt < maxRetries"
  then have d: "retryDelay env attempt e w1
                  = (backoffDelay attempt (fst (random env w1)), snd (random env w1))"
    by (simp add: retryDelay_backoff)
  show "retryLoop env req maxRetries attempt lastError w
          = (case retryLoop env req maxRetries (attempt + 1) (Some e) (snd (random env w1)) of
               (r, w3, tr) \<Rightarrow>
                 (r, w3, Dispatch req # Sleep (backoffDelay attempt (fst (random env w1))) # tr))"
    using retryLoop_retry [of attempt maxRetries env req w e w1 lastError] h unfolding d by simp
next
  show "backoffDelay 1 0 = 1000" by (rule backoffDelay_facts)
next
  show "backoffDelay (attempt + 1) 0 = 2 * backoffDelay attempt 0"
    by (rule backoffDelay_facts) (rule a1)
next
  fix u :: real
  assume "0 \<le> u \<and> u < 1"
  then show "backoffDelay attempt 0 \<le> backoffDelay attempt u"
    and "backoffDelay attempt u < backoffDelay attempt 0 + 500"
    using backoffDelay_facts(3) [of u attempt] by simp_all
next
  fix s stxt h
  assume "500 \<le> s \<or> s = (429 :: nat)"
  then show "\<not> nonRetryable (httpError s stxt h)"
    by (auto simp: nonRetryable_httpError)
next
  fix m
  assume "\<not> includesStr m ''Shopify API error:''"
  then show "\<not> nonRetryable (plainError m)" by (rule nonRetryable_plain)
next
  fix e w1
  assume "makeGraphQLRequest env req w = (Inl e, w1) \<and> attempt = maxRetries"
  then show "retryLoop env req maxRetries attempt lastError w = (Inl e, w1, [Dispatch req])"
    by (simp add: retryLoop_last)
next
  show "1 \<le> dispatches (snd (snd (retryLoop env req maxRetries attempt lastError w)))"
    and "dispatches (snd (snd (retryLoop env req maxRetries attempt lastError w)))
           \<le> maxRetries + 1 - attempt"
    using retryLoop_dispatches [OF a2, of env req lastError w] by simp_all
qed


lemma fetch_alwaysStatus:
  "fetch (alwaysStatus s stxt) w req = (FetchResponse s stxt None (BodyInvalid []), w + 1)"
  by (simp add: alwaysStatus_def)

lemma fetch_rateLimitedOnce:
  "fetch (rateLimitedOnce h) 0 req
     = (FetchResponse 429 ''Too Many Requests'' (Some h) (BodyInvalid []), 1)"
  by (simp add: rateLimitedOnce_def)

theorem retry_policy_witness:
  "(1 :: nat) \<le> 1 \<and> (1 :: nat) \<le> 3 \<and>
   makeGraphQLRequestWithRetry (alwaysStatus 404 ''Not Found'') sampleRequest 0
     = (Inl (httpError 404 ''Not Found'' None), 1, [Dispatch sampleRequest]) \<and>
   parseInt10 ''2.0'' = Num 2 \<and>
   retryLoop (rateLimitedOnce ''2.0'') sampleRequest 3 1 None 0
     = (Inr [], 2, [Dispatch sampleRequest, Sleep 2000, Dispatch sampleRequest]) \<and>
   1000 \<le> backoffDelay 1 (1 / 2) \<and> backoffDelay 1 (1 / 2) < 1500 \<and>
   backoffDelay 2 0 = 2000 \<and>
   makeGraphQLRequestWithRetry (alwaysStatus 503 ''Service Unavailable'') sampleRequest 0
     = (Inl (httpError 503 ''Service Unavailable'' None), 3,
        [Dispatch sampleRequest, Sleep 1250, Dispatch sampleRequest, Sleep 2250,
         Dispatch sampleRequest])"
proof -
  have h1: "(1 :: nat) \<le> 1" and h2: "(1 :: nat) \<le> 3" by simp_all
  note inst = retry_policy [OF h1 h2, of "alwaysStatus 404 ''Not Found''" sampleRequest 0 None]
  have "makeGraphQLRequestWithRetry (alwaysStatus 404 ''Not Found'') sampleRequest 0
          = retryLoop (alwaysStatus 404 ''Not Found'') sampleRequest 3 1 None 0"
    using inst by blast
  moreover have "retryLoop (alwaysStatus 404 ''Not Found'') sampleRequest 3 1 None 0
          = (Inl (httpError 404 ''Not Found'' None), 0 + 1, [Dispatch sampleRequest])"
    using inst fetch_alwaysStatus [of 404 "''Not Found''" 0 sampleRequest] by simp
  moreover have p2: "parseInt10 ''2.0'' = Num 2"
    by code_simp
  moreover have "retryLoop (rateLimitedOnce ''2.0'') sampleRequest 3 1 None 0
     = (Inr [], 2, [Dispatch sampleRequest, Sleep 2000, Dispatch sampleRequest])"
  proof -
    note inst2 = retry_policy [OF h1 h2, of "rateLimitedOnce ''2.0''" sampleRequest 0 None]
    have next_attempt:
      "retryLoop (rateLimitedOnce ''2.0'') sampleRequest 3 (1 + 1)
         (Some (httpError 429 ''Too Many Requests'' (Some ''2.0''))) 1
       = (Inr [], 2, [Dispatch sampleRequest])"
      by code_simp
    have "retryLoop (rateLimitedOnce ''2.0'') sampleRequest 3 1 None 0
          = (case retryLoop (rateLimitedOnce ''2.0'') sampleRequest 3 (1 + 1)
                    (Some (httpError 429 ''Too Many Requests'' (Some ''2.0''))) 1 of
               (r, w3, tr) \<Rightarrow>
                 (r, w3, Dispatch sampleRequest # Sleep (real_of_int (2 * 1000)) # tr))"
      using inst2 fetch_rateLimitedOnce [of "''2.0''" sampleRequest] p2 by simp
    then show ?thesis unfolding next_attempt by simp
  qed
  moreover have "1000 \<le> backoffDelay 1 (1 / 2) \<and> backoffDelay 1 (1 / 2) < 1500"
  proof -
    from inst have b1: "backoffDelay 1 0 = 1000"
      and b3: "\<forall>u. 0 \<le> u \<and> u < 1 \<longrightarrow>
                 backoffDelay 1 0 \<le> backoffDelay 1 u \<and> backoffDelay 1 u < backoffDelay 1 0 + 500"
      by blast+
    from b3 [rule_format, of "1 / 2"] b1 show ?thesis by simp
  qed
  moreover have "backoffDelay 2 0 = 2000"
  proof -
    from inst have b1: "backoffDelay 1 0 = 1000"
      and b2: "backoffDelay (1 + 1) 0 = 2 * backoffDelay 1 0"
      by blast+
    then show ?thesis by (simp add: numeral_2_eq_2)
  qed
  moreover have "makeGraphQLRequestWithRetry (alwaysStatus 503 ''Service Unavailable'') sampleRequest 0
     = (Inl (httpError 503 ''Service Unavailable'' None), 3,
        [Dispatch sampleRequest, Sleep 1250, Dispatch sampleRequest, Sleep 2250,
         Dispatch sampleRequest])"
    by code_simp
  ultimately show ?thesis by simp
qed

text \<open>
  The claim as written has a 429 response with retry-after value \<open>T\<close> delay the next attempt
  by exactly \<open>T\<close>.  With \<^verbatim>\<open>Retry-After: 0\<close> the value is 0 and the next attempt comes
  after the backoff of the first attempt, here 1250 milliseconds.
\<close>

theorem retryAfter_zero_counterexample:
  "parseInt10 ''0'' = Num 0 \<and>
   makeGraphQLRequestWithRetry (rateLimitedOnce ''0'') sampleRequest 0
     = (Inr [], 2, [Dispatch sampleRequest, Sleep 1250, Dispatch sampleRequest])"
  by code_simp

lemma retryLoop_attempts:
  "attempt \<le> maxRetries \<Longrightarrow>
   \<exists>ds. snd (snd (retryLoop env req maxRetries attempt lastError w)) = attemptsWith req ds \<and>
        length ds \<le> maxRetries - attempt"
proof (induction env req maxRetries attempt lastError w rule: retryLoop.induct)
  case (1 env req maxRetries attempt lastError w)
  obtain res w1 where m: "makeGraphQLRequest env req w = (res, w1)"
    by (cases "makeGraphQLRequest env req w") auto
  have single: "\<exists>ds. [Dispatch req] = attemptsWith req ds \<and> length ds \<le> maxRetries - attempt"
    by (rule exI [of _ "[]"]) simp
  show ?case
  proof (cases res)
    case (Inr d)
    then show ?thesis
      using "1.prems" m single by (simp add: retryLoop_success)
  next
    case (Inl e)
    show ?thesis
    proof (cases "nonRetryable e \<or> attempt = maxRetries")
      case True
      then show ?thesis
        using "1.prems" m Inl single
        by (auto simp: retryLoop_fatal retryLoop_last)
    next
      case False
      then have lt: "attempt < maxRetries" and nr: "\<not> nonRetryable e"
        using "1.prems" by auto
      have le: "attempt + 1 \<le> maxRetries" using lt by simp
      note ih = "1.IH" [OF "1.prems" m [symmetric] Inl nr _ le]
      obtain r w3 tr where rest:
        "retryLoop env req maxRetries (attempt + 1) (Some e) (snd (retryDelay env attempt e w1)) = (r, w3, tr)"
        by (cases "retryLoop env req maxRetries (attempt + 1) (Some e) (snd (retryDelay env attempt e w1))") auto
      from ih lt rest obtain ds where ds: "tr = attemptsWith req ds"
        "length ds \<le> maxRetries - (attempt + 1)"
        by auto
      have "Dispatch req # Sleep (fst (retryDelay env attempt e w1)) # tr
              = attemptsWith req (fst (retryDelay env attempt e w1) # ds) \<and>
            length (fst (retryDelay env attempt e w1) # ds) \<le> maxRetries - attempt"
        using ds lt by simp
      then have "\<exists>ds'. Dispatch req # Sleep (fst (retryDelay env attempt e w1)) # tr
                        = attemptsWith req ds' \<and> length ds' \<le> maxRetries - attempt"
        by (rule exI)
      then show ?thesis
        unfolding retryLoop_retry [OF lt m [unfolded Inl] nr] rest
        by (simp only: prod.case snd_conv)
    qed
  qed
qed

lemma dispatches_attemptsWith: "dispatches (attemptsWith req ds) = length ds + 1"
  by (induction ds) (simp_all add: dispatches_def)

lemma attemptsWith_not_gated: "\<not> gated False (attemptsWith req ds)"
  by (cases ds) simp_all

lemma gated_retries: "gated False (tl (attemptsWith req ds)) \<longleftrightarrow> ds = []"
  by (cases ds) (simp_all add: attemptsWith_not_gated)

text \<open>
  Claim C5, as the code has it.  The effects of a call through the retry wrapper are its
  attempts and the sleeps between them and nothing else: the request is sent, and each
  further attempt (there are two at most) is one sleep followed by the same request, sent
  without a throttle check.  So the attempts after the first are made under the throttling
  discipline only when there is none of them.
\<close>

theorem retries_not_throttled:
  "\<exists>ds. snd (snd (makeGraphQLRequestWithRetry env req w)) = attemptsWith req ds \<and>
        length ds \<le> 2 \<and>
        dispatches (snd (snd (makeGraphQLRequestWithRetry env req w))) = length ds + 1 \<and>
        (gated False (tl (snd (snd (makeGraphQLRequestWithRetry env req w)))) \<longleftrightarrow> ds = [])"
proof -
  from retryLoop_attempts [of 1 3 env req None w]
  obtain ds where ds: "snd (snd (retryLoop env req 3 1 None w)) = attemptsWith req ds"
    "length ds \<le> 2"
    by auto
  show ?thesis
    unfolding makeGraphQLRequestWithRetry_def ds(1)
    using ds(2) dispatches_attemptsWith [of req ds] gated_retries [of req ds] by blast
qed

theorem retries_not_throttled_witness:
  "snd (snd (makeGraphQLRequestWithRetry (alwaysStatus 503 ''Service Unavailable'') sampleRequest 0))
     = [Dispatch sampleRequest, Sleep 1250, Dispatch sampleRequest, Sleep 2250,
        Dispatch sampleRequest] \<and>
   dispatches [Dispatch sampleRequest, Sleep 1250, Dispatch sampleRequest, Sleep 2250,
               Dispatch sampleRequest] = 3 \<and>
   \<not> gated False (tl [Dispatch sampleRequest, Sleep 1250, Dispatch sampleRequest, Sleep 2250,
                       Dispatch sampleRequest])"
proof -
  have e: "snd (snd (makeGraphQLRequestWithRetry (alwaysStatus 503 ''Service Unavailable'')
                       sampleRequest 0))
     = [Dispatch sampleRequest, Sleep 1250, Dispatch sampleRequest, Sleep 2250,
        Dispatch sampleRequest]"
    by code_simp
  from retries_not_throttled [of "alwaysStatus 503 ''Service Unavailable''" sampleRequest 0]
  obtain ds where
    a: "[Dispatch sampleRequest, Sleep 1250, Dispatch sampleRequest, Sleep 2250,
         Dispatch sampleRequest] = attemptsWith sampleRequest ds"
    and d: "dispatches [Dispatch sampleRequest, Sleep 1250, Dispatch sampleRequest, Sleep 2250,
                        Dispatch sampleRequest] = length ds + 1"
    and g: "gated False (tl [Dispatch sampleRequest, Sleep 1250, Dispatch sampleRequest,
                             Sleep 2250, Dispatch sampleRequest]) \<longleftrightarrow> ds = []"
    unfolding e by blast
  have "ds \<noteq> []" using a by auto
  with g have ng: "\<not> gated False (tl [Dispatch sampleRequest, Sleep 1250, Dispatch sampleRequest,
                                       Sleep 2250, Dispatch sampleRequest])"
    by blast
  have "length [Dispatch sampleRequest, Sleep 1250, Dispatch sampleRequest, Sleep 2250,
                Dispatch sampleRequest] = length (attemptsWith sampleRequest ds)"
    using a by simp
  moreover have "length (attemptsWith sampleRequest xs) = 2 * length xs + 1" for xs
    by (induction xs) simp_all
  ultimately have "length ds = 2" by simp
  with d have "dispatches [Dispatch sampleRequest, Sleep 1250, Dispatch sampleRequest, Sleep 2250,
                           Dispatch sampleRequest] = 3"
    by simp
  then show ?thesis using e ng by blast
qed

text \<open>
  The claim as written has every retry attempt pass a throttle check before its request is
  sent.  After a 429 with \<^verbatim>\<open>Retry-After: 2.0\<close> the second request follows the sleep with no
  check in between.
\<close>

theorem retry_without_throttle_counterexample:
  "snd (snd (makeGraphQLRequestWithRetry (rateLimitedOnce ''2.0'') sampleRequest 0))
     = [Dispatch sampleRequest, Sleep 2000, Dispatch sampleRequest] \<and>
   \<not> gated False (tl (snd (snd (makeGraphQLRequestWithRetry (rateLimitedOnce ''2.0'')
                                    sampleRequest 0))))"
  by code_simp

section \<open>The scenario of 25 items\<close>

lemma bulkUpdate_foldl_validation:
  assumes upd: "\<forall>w pid. fst (updateProductVendor env svc pid vendor w)
                          = Inr (if pid = bad then [(fld, msg)] else [])"
  shows "successCount (fst (foldl (\<lambda>acc productId. bulkUpdateItem env svc allIds vendor productId acc)
                              (r, w, tr) xs))
           = successCount r + length (filter (\<lambda>x. x \<noteq> bad) xs) \<and>
         failureCount (fst (foldl (\<lambda>acc productId. bulkUpdateItem env svc allIds vendor productId acc)
                              (r, w, tr) xs))
           = failureCount r + length (filter (\<lambda>x. x = bad) xs) \<and>
         errors (fst (foldl (\<lambda>acc productId. bulkUpdateItem env svc allIds vendor productId acc)
                        (r, w, tr) xs))
           = errors r \<and>
         userErrors (fst (foldl (\<lambda>acc productId. bulkUpdateItem env svc allIds vendor productId acc)
                            (r, w, tr) xs))
           = userErrors r @ map (\<lambda>x. (x, fld, msg)) (filter (\<lambda>x. x = bad) xs)"
proof (induction xs arbitrary: r w tr)
  case Nil
  then show ?case by simp
next
  case (Cons x xs)
  obtain res w1 tr1 where u: "updateProductVendor env svc x vendor w = (res, w1, tr1)"
    by (cases "updateProductVendor env svc x vendor w") auto
  have res: "res = Inr (if x = bad then [(fld, msg)] else [])"
    using upd [rule_format, of x w] u by simp
  obtain r1 w1' tr1' where s: "bulkUpdateItem env svc allIds vendor x (r, w, tr) = (r1, w1', tr1')"
    by (cases "bulkUpdateItem env svc allIds vendor x (r, w, tr)") auto
  have r1: "r1 = (if x = bad
                  then r\<lparr>failureCount := failureCount r + 1,
                         userErrors := userErrors r @ [(x, fld, msg)]\<rparr>
                  else r\<lparr>successCount := successCount r + 1\<rparr>)"
    using s u res by (auto simp: bulkUpdateItem_def split: if_splits)
  show ?case
    using Cons.IH [of r1 w1' tr1'] by (simp add: s r1)
qed

lemma bulkUpdateVendor_validation:
  assumes upd: "\<forall>w pid. fst (updateProductVendor env svc pid vendor w)
                          = Inr (if pid = bad then [(fld, msg)] else [])"
  shows "fst (bulkUpdateVendor env svc xs vendor w)
           = \<lparr>successCount = length (filter (\<lambda>x. x \<noteq> bad) xs),
              failureCount = length (filter (\<lambda>x. x = bad) xs),
              errors = [],
              userErrors = map (\<lambda>x. (x, fld, msg)) (filter (\<lambda>x. x = bad) xs)\<rparr>"
  using bulkUpdate_foldl_validation [OF upd, of xs "\<lparr>successCount = 0, failureCount = 0, errors = [], userErrors = []\<rparr>" w "[]" xs]
  by (simp add: bulkUpdateVendor_def)

lemma shopifyDeps_bulkUpdate:
  "fst (bulkUpdate (shopifyDeps env clk) w svc xs vendor) = Inr (fst (bulkUpdateVendor env svc xs vendor w))"
  by (simp add: shopifyDeps_def split: prod.splits)

lemma filter_absent: "bad \<notin> set xs \<Longrightarrow> filter (\<lambda>x. x = bad) xs = []"
  by (induction xs) auto

lemma filter_others: "bad \<notin> set xs \<Longrightarrow> filter (\<lambda>x. x \<noteq> bad) xs = xs"
  by (induction xs) auto

lemma batches_25:
  assumes "length pre = 12" "length post = 12"
  shows "batches batchSize (pre @ bad # post)
           = [take 10 pre, drop 10 pre @ bad # take 7 post, drop 7 post]"
proof -
  have "batches batchSize (drop 7 post) = [drop 7 post]"
    using assms by (subst batches.simps, subst batches.simps) (simp add: batchSize_def)
  then have "batches batchSize (drop 10 pre @ bad # post)
         = [drop 10 pre @ bad # take 7 post, drop 7 post]"
    using assms by (subst batches.simps) (simp add: batchSize_def)
  then show ?thesis
    using assms by (subst batches.simps) (simp add: batchSize_def)
qed


lemma showNat_1: "showNat 1 = ''1''"
  by code_simp

text \<open>
  A run with the recording client is the run with the client itself, and the record it
  leaves is the list of the job's batches.
\<close>

lemma batchIteration_recording:
  "batchIteration (recording deps) jid job svc i (st, (w, calls), t)
     = (case batchIteration deps jid job svc i (st, w, t) of
          (st', w', t') \<Rightarrow> (st', (w', calls @ [take batchSize (drop i (productIds job))]), t'))"
  by (simp add: batchIteration_def Let_def recording_def split: prod.splits sum.splits option.splits)

lemma batchLoop_recording:
  "batchLoop (recording deps) jid job svc i (st, (w, calls), t)
     = (case batchLoop deps jid job svc i (st, w, t) of
          (st', w', t') \<Rightarrow> (st', (w', calls @ batches batchSize (drop i (productIds job))), t'))"
proof (induction deps jid job svc i "(st, w, t)" arbitrary: st w t calls rule: batchLoop.induct)
  case (1 deps jid job svc i)
  show ?case
  proof (cases "i < length (productIds job)")
    case False
    then show ?thesis
      by (subst (1 2) batchLoop.simps) (simp add: batches_done)
  next
    case True
    obtain st1 w1 t1 where it: "batchIteration deps jid job svc i (st, w, t) = (st1, w1, t1)"
      by (cases "batchIteration deps jid job svc i (st, w, t)") auto
    note ih = "1.hyps" [OF True it,
                        of "calls @ [take batchSize (drop i (productIds job))]"]
    show ?thesis
      apply (subst (1 2) batchLoop.simps)
      using True ih
      by (simp add: batchIteration_recording it batches_step split: prod.splits)
  qed
qed

lemma processJob_recording:
  fixes deps :: "'w Deps" and w :: 'w
  assumes ngd: "jid \<notin> processingJobs p"
    and job: "getBulkJob (storage p) jid = Some job"
    and tok: "accessTokenOf (storage p) (shopDomain job) = Some tok"
    and run: "processJob deps jid (p, w) = (p', w', out)"
  shows "processJob (recording deps) jid (p, (w, calls))
           = (p', (w', calls @ batches batchSize (productIds job)), out)"
proof -
  define svc where "svc = createShopifyService (shopDomain job) tok"
  define st2 where "st2 = snd (updateBulkJob (storage p) jid
                                 (noUpdates\<lparr>setStatus := Some RUNNING\<rparr>) (clock deps w))"
  define zero where "zero = \<lparr>processed = 0, succeeded = 0, failed = 0, allErrors = []\<rparr>"
  obtain st3 w3 t3 where acc: "batchLoop deps jid job svc 0 (st2, w, zero) = (st3, w3, t3)"
    by (cases "batchLoop deps jid job svc 0 (st2, w, zero)") auto
  have c: "clock (recording deps) wl = clock deps (fst wl)" for wl
    by (simp add: recording_def)
  have rec: "batchLoop (recording deps) jid job svc 0 (st2, (w, calls), zero)
               = (st3, (w3, calls @ batches batchSize (productIds job)), t3)"
    using batchLoop_recording [of deps jid job svc 0 st2 w calls zero] acc by simp
  have plain: "processJob deps jid (p, w)
      = (p\<lparr>storage := snd (updateBulkJob st3 jid
                             \<lparr>setStatus = Some (finalStatus t3),
                              setProcessedCount = Some (processed t3),
                              setErrorMessage = Some (errorDigest t3),
                              setCompletedAt = Some (Some (clock deps w3))\<rparr>
                             (clock deps w3)),
           processingJobs := processingJobs p\<rparr>, w3, Completed t3)"
    using processJob_run [OF ngd job tok, of deps w] acc
    by (simp add: svc_def st2_def zero_def)
  have "processJob (recording deps) jid (p, (w, calls))
      = (p\<lparr>storage := snd (updateBulkJob st3 jid
                             \<lparr>setStatus = Some (finalStatus t3),
                              setProcessedCount = Some (processed t3),
                              setErrorMessage = Some (errorDigest t3),
                              setCompletedAt = Some (Some (clock deps w3))\<rparr>
                             (clock deps w3)),
           processingJobs := processingJobs p\<rparr>,
         (w3, calls @ batches batchSize (productIds job)), Completed t3)"
    using processJob_run [OF ngd job tok, of "recording deps" "(w, calls)"] rec
    by (simp add: c svc_def st2_def zero_def)
  then show ?thesis
    using plain run by simp
qed

text \<open>
  Claim C9.  The job has 25 items; the thirteenth, \<open>bad\<close>, occurs nowhere else in the list.
  The update of \<open>bad\<close> comes back with one user error \<open>(fld, msg)\<close> and the update of any
  other item comes back with none, whatever the state of the remote service.  Then a call
  of \<open>processJob\<close> calls the client three times, with the first ten items, the next ten and
  the last five, in this order, and ends with \<open>processedCount\<close> 25, a failure count of 1
  (and 24 successes), status \<open>FAILED\<close>, and an error message with the one entry for \<open>bad\<close>.
\<close>

theorem scenario_25_items:
  fixes env :: "('w, ShopifyProductUpdateResponse) Remote" and w :: 'w
  assumes ids: "productIds job = pre @ bad # post"
    and lp: "length pre = 12" and lq: "length post = 12"
    and np: "bad \<notin> set pre" and nq: "bad \<notin> set post"
    and ngd: "jid \<notin> processingJobs p"
    and stored: "getBulkJob (storage p) jid = Some job"
    and tok: "accessTokenOf (storage p) (shopDomain job) = Some tok"
    and upd: "\<forall>w pid. fst (updateProductVendor env (createShopifyService (shopDomain job) tok)
                               pid (targetVendor job) w)
                          = Inr (if pid = bad then [(fld, msg)] else [])"
  shows "length (productIds job) = 25 \<and> productIds job ! 12 = bad \<and>
         (\<exists>p' w' t job'.
            processJob (recording (shopifyDeps env clk)) jid (p, (w, []))
              = (p',
                 (w', [take 10 (productIds job), take 10 (drop 10 (productIds job)),
                       drop 20 (productIds job)]),
                 Completed t) \<and>
            processJob (shopifyDeps env clk) jid (p, w) = (p', w', Completed t) \<and>
            getBulkJob (storage p') jid = Some job' \<and>
            processedCount job' = 25 \<and> failed t = 1 \<and> succeeded t = 24 \<and>
            status job' = FAILED \<and>
            errorMessage job' =
              Some (''1 products failed. Errors: Product '' @ bad @ '': '' @ msg
                      @ '' (field: '' @ fld @ '')'')) \<and>
         map length [take 10 (productIds job), take 10 (drop 10 (productIds job)),
                     drop 20 (productIds job)] = [10, 10, 5] \<and>
         take 10 (productIds job) @ take 10 (drop 10 (productIds job)) @ drop 20 (productIds job)
           = productIds job"
proof -
  define svc where "svc = createShopifyService (shopDomain job) tok"
  define deps where "deps = shopifyDeps env clk"
  define b1 where "b1 = take 10 pre"
  define b2 where "b2 = drop 10 pre @ bad # take 7 post"
  define b3 where "b3 = drop 7 post"
  have bs: "batches batchSize (productIds job) = [b1, b2, b3]"
    unfolding ids b1_def b2_def b3_def by (rule batches_25 [OF lp lq])
  have n1: "bad \<notin> set b1" using np unfolding b1_def by (auto dest: in_set_takeD)
  have n3: "bad \<notin> set b3" using nq unfolding b3_def by (auto dest: in_set_dropD)
  have n2a: "bad \<notin> set (drop 10 pre)" using np by (auto dest: in_set_dropD)
  have n2b: "bad \<notin> set (take 7 post)" using nq by (auto dest: in_set_takeD)
  have f1: "filter (\<lambda>x. x = bad) b1 = []" "filter (\<lambda>x. x \<noteq> bad) b1 = b1"
    using n1 by (simp_all add: filter_absent filter_others)
  have f3: "filter (\<lambda>x. x = bad) b3 = []" "filter (\<lambda>x. x \<noteq> bad) b3 = b3"
    using n3 by (simp_all add: filter_absent filter_others)
  have f2: "filter (\<lambda>x. x = bad) b2 = [bad]"
    "filter (\<lambda>x. x \<noteq> bad) b2 = drop 10 pre @ take 7 post"
    unfolding b2_def using n2a n2b by (simp_all add: filter_absent filter_others)
  have l1: "length b1 = 10" and l3: "length b3 = 5"
    and l2: "length (drop 10 pre @ take 7 post) = 9" "length b2 = 10"
    using lp lq by (simp_all add: b1_def b2_def b3_def)
  have res: "fst (bulkUpdate deps w0 svc xs (targetVendor job))
               = Inr \<lparr>successCount = length (filter (\<lambda>x. x \<noteq> bad) xs),
                      failureCount = length (filter (\<lambda>x. x = bad) xs),
                      errors = [],
                      userErrors = map (\<lambda>x. (x, fld, msg)) (filter (\<lambda>x. x = bad) xs)\<rparr>"
    for w0 xs
    unfolding deps_def shopifyDeps_bulkUpdate
    using bulkUpdateVendor_validation [OF upd [folded svc_def], of xs w0] by simp
  have wr: "progressWriteError deps w0 = None" for w0
    by (simp add: deps_def)
  have run: "runBatches deps svc (targetVendor job) [b1, b2, b3] w
      = [(Inr \<lparr>successCount = 10, failureCount = 0, errors = [], userErrors = []\<rparr>, None, b1),
         (Inr \<lparr>successCount = 9, failureCount = 1, errors = [],
                userErrors = [(bad, fld, msg)]\<rparr>, None, b2),
         (Inr \<lparr>successCount = 5, failureCount = 0, errors = [], userErrors = []\<rparr>, None, b3)]"
    by (simp add: batchRun_def res wr f1 f2 f3 l1 l3 lp lq)
  have aggF: "aggregateFailureCount deps job svc w = 1"
    and aggS: "aggregateSuccessCount deps job svc w = 24"
    and aggP: "aggregateProcessedCount deps job svc w = 25"
    and aggE: "aggregateErrors deps job svc w
                 = [''Product '' @ bad @ '': '' @ msg @ '' (field: '' @ fld @ '')'']"
    unfolding aggregateFailureCount_def aggregateSuccessCount_def aggregateErrors_def
      aggregateProcessedCount_def bs run
    by (simp_all add: fmtUserError_def l1 l2 l3)
  from processJob_summary [OF ngd stored tok, of deps w]
  obtain p' w' t job' where
    r: "processJob deps jid (p, w) = (p', w', Completed t)"
    and j: "getBulkJob (storage p') jid = Some job'"
    and t: "failed t = aggregateFailureCount deps job svc w"
      "succeeded t = aggregateSuccessCount deps job svc w"
      "allErrors t = aggregateErrors deps job svc w"
      "processed t = aggregateProcessedCount deps job svc w"
    and f: "status job' = finalStatus t" "processedCount job' = processed t"
      "errorMessage job' = errorDigest t"
    unfolding svc_def by blast
  have len: "length (productIds job) = 25" unfolding ids using lp lq by simp
  have nth: "productIds job ! 12 = bad" unfolding ids using lp by (simp add: nth_append)
  have c1: "take 10 (productIds job) = b1"
    and c2: "take 10 (drop 10 (productIds job)) = b2"
    and c3: "drop 20 (productIds job) = b3"
    unfolding ids b1_def b2_def b3_def using lp lq by simp_all
  have ml: "map length [b1, b2, b3] = [10, 10, 5]"
    using l1 l2 l3 by simp
  have cc: "take 10 (productIds job) @ take 10 (drop 10 (productIds job)) @ drop 20 (productIds job)
              = productIds job"
    by (metis append_take_drop_id drop_drop numeral_Bit0 add.commute)
  have rc: "processJob (recording deps) jid (p, (w, [])) = (p', (w', [b1, b2, b3]), Completed t)"
    using processJob_recording [OF ngd stored tok r, of "[]"] bs by simp
  have dig: "errorDigest t
      = Some (''1 products failed. Errors: Product '' @ bad @ '': '' @ msg
                @ '' (field: '' @ fld @ '')'')"
    unfolding errorDigest_def t aggF aggE using showNat_1 by simp
  have "processJob (recording (shopifyDeps env clk)) jid (p, (w, []))
          = (p', (w', [take 10 (productIds job), take 10 (drop 10 (productIds job)),
                       drop 20 (productIds job)]), Completed t) \<and>
        processJob (shopifyDeps env clk) jid (p, w) = (p', w', Completed t) \<and>
        getBulkJob (storage p') jid = Some job' \<and>
        processedCount job' = 25 \<and> failed t = 1 \<and> succeeded t = 24 \<and>
        status job' = FAILED \<and>
        errorMessage job' =
          Some (''1 products failed. Errors: Product '' @ bad @ '': '' @ msg
                  @ '' (field: '' @ fld @ '')'')"
    using r rc j t f aggF aggS aggP dig unfolding c1 c2 c3
    by (simp add: deps_def finalStatus_def)
  then show ?thesis
    using len nth ml cc unfolding c1 c2 c3 by blast
qed


lemma demoRemote_update:
  "fst (updateProductVendor demoRemote svc pid vendor w)
     = Inr (if pid = ''p13'' then [(''vendor'', ''Vendor is invalid'')] else [])"
proof -
  define req where "req = \<lparr>url = baseUrl svc, token = accessToken svc,
                            operation = ''UpdateProductVendor'',
                            variables = [(''productId'', pid), (''vendor'', vendor)]\<rparr>"
  have "makeGraphQLRequest demoRemote req w
          = (Inr (if pid = ''p13'' then [(''vendor'', ''Vendor is invalid'')] else []), w + 1)"
    by (simp add: makeGraphQLRequest_def demoRemote_def responseOk_def req_def)
  then have "retryLoop demoRemote req 3 1 None w
          = (Inr (if pid = ''p13'' then [(''vendor'', ''Vendor is invalid'')] else []), w + 1,
             [Dispatch req])"
    by (intro retryLoop_success) simp_all
  then show ?thesis
    by (simp add: updateProductVendor_def makeGraphQLRequestWithRetry_def req_def)
qed

lemma sample_calls:
  "snd (fst (snd (processJob (recording demoDeps) ''job-1'' (processorWith sampleJob, (0, [])))))
     = [[''p1'', ''p2'', ''p3'', ''p4'', ''p5'', ''p6'', ''p7'', ''p8'', ''p9'', ''p10''],
        [''p11'', ''p12'', ''p13'', ''p14'', ''p15'', ''p16'', ''p17'', ''p18'', ''p19'', ''p20''],
        [''p21'', ''p22'', ''p23'', ''p24'', ''p25'']]"
  by code_simp

theorem scenario_25_items_witness:
  "productIds sampleJob = take 12 sampleIds @ ''p13'' # drop 13 sampleIds \<and>
   length (take 12 sampleIds) = 12 \<and> length (drop 13 sampleIds) = 12 \<and>
   ''p13'' \<notin> set (take 12 sampleIds) \<and> ''p13'' \<notin> set (drop 13 sampleIds) \<and>
   ''job-1'' \<notin> processingJobs (processorWith sampleJob) \<and>
   getBulkJob (storage (processorWith sampleJob)) ''job-1'' = Some sampleJob \<and>
   accessTokenOf (storage (processorWith sampleJob)) (shopDomain sampleJob) = Some ''shpat_token'' \<and>
   snd (fst (snd (processJob (recording demoDeps) ''job-1'' (processorWith sampleJob, (0, [])))))
     = [[''p1'', ''p2'', ''p3'', ''p4'', ''p5'', ''p6'', ''p7'', ''p8'', ''p9'', ''p10''],
        [''p11'', ''p12'', ''p13'', ''p14'', ''p15'', ''p16'', ''p17'', ''p18'', ''p19'', ''p20''],
        [''p21'', ''p22'', ''p23'', ''p24'', ''p25'']] \<and>
   getBulkJob (storage (fst (processJob demoDeps ''job-1'' (processorWith sampleJob, 0)))) ''job-1''
     = Some (sampleJob\<lparr>status := FAILED,
               errorMessage := Some ''1 products failed. Errors: Product p13: Vendor is invalid (field: vendor)'',
               processedCount := 25, updatedAt := Some 8250, completedAt := Some 8250\<rparr>) \<and>
   snd (snd (processJob demoDeps ''job-1'' (processorWith sampleJob, 0)))
     = Completed \<lparr>processed = 25, succeeded = 24, failed = 1,
                  allErrors = [''Product p13: Vendor is invalid (field: vendor)'']\<rparr>"
proof -
  have h1: "productIds sampleJob = take 12 sampleIds @ ''p13'' # drop 13 sampleIds"
    by code_simp
  have h2: "length (take 12 sampleIds) = 12" and h3: "length (drop 13 sampleIds) = 12"
    by (simp_all add: sampleIds_def)
  have h4: "''p13'' \<notin> set (take 12 sampleIds)" and h5: "''p13'' \<notin> set (drop 13 sampleIds)"
    by code_simp+
  have h9: "\<forall>w pid. fst (updateProductVendor demoRemote
                             (createShopifyService (shopDomain sampleJob) ''shpat_token'')
                             pid (targetVendor sampleJob) w)
                      = Inr (if pid = ''p13'' then [(''vendor'', ''Vendor is invalid'')] else [])"
    by (simp add: demoRemote_update)
  from scenario_25_items [OF h1 h2 h3 h4 h5 sample_guard sample_stored sample_token h9,
                          of demoClock 0]
  have ml: "map length [take 10 (productIds sampleJob), take 10 (drop 10 (productIds sampleJob)),
                        drop 20 (productIds sampleJob)] = [10, 10, 5]"
    by (elim conjE)
  have e: "snd (snd (processJob demoDeps ''job-1'' (processorWith sampleJob, 0)))
     = Completed \<lparr>processed = 25, succeeded = 24, failed = 1,
                  allErrors = [''Product p13: Vendor is invalid (field: vendor)'']\<rparr>"
    by code_simp
  show ?thesis
    using h1 h2 h3 h4 h5 sample_guard sample_stored sample_token ml sample_result e sample_calls
    by simp
qed

text \<open>
  With the Shopify client, the success and failure counts of a job's batches add up to the
  number of its items: every item of the job is counted once.
\<close>

lemma concat_batches: "0 < n \<Longrightarrow> concat (batches n xs) = xs"
proof (induction n xs rule: batches.induct)
  case (1 n xs)
  show ?case
  proof (cases "xs = []")
    case True
    then show ?thesis by simp
  next
    case False
    then show ?thesis
      using "1.IH" "1.prems" by (subst batches.simps) simp
  qed
qed

lemma runBatches_shopify_counts:
  "sum_list (map batchSuccessCount (runBatches (shopifyDeps env clk) svc vendor bs w))
     + sum_list (map batchFailureCount (runBatches (shopifyDeps env clk) svc vendor bs w))
     = length (concat bs)"
proof (induction bs arbitrary: w)
  case Nil
  then show ?case by simp
next
  case (Cons b bs)
  have r: "fst (bulkUpdate (shopifyDeps env clk) w svc b vendor)
             = Inr (fst (bulkUpdateVendor env svc b vendor w))"
    by (rule shopifyDeps_bulkUpdate)
  have c: "successCount (fst (bulkUpdateVendor env svc b vendor w))
             + failureCount (fst (bulkUpdateVendor env svc b vendor w)) = length b"
    using bulkUpdate_foldl_counts [of env svc b vendor _ w "[]" b, OF refl]
    by (simp add: bulkUpdateVendor_def)
  show ?case
    using Cons.IH [of "snd (bulkUpdate (shopifyDeps env clk) w svc b vendor)"] c
    by (simp add: batchRun_def r)
qed

lemma job_counts_every_item:
  "aggregateSuccessCount (shopifyDeps env clk) job svc w
     + aggregateFailureCount (shopifyDeps env clk) job svc w = length (productIds job)"
  unfolding aggregateSuccessCount_def aggregateFailureCount_def
  using runBatches_shopify_counts [of env clk svc "targetVendor job" "batches batchSize (productIds job)" w]
  by (simp add: concat_batches batchSize_def)


end
